theory Spec2Isabelle
  imports Complex_Main "HOL-Library.AList" "HOL-Library.Sublist"
begin

section \<open>Python values\<close>

text \<open>
  The program in \<^verbatim>\<open>birdseye/mcts.py\<close> moves configuration values between three
  Python libraries: \<^verbatim>\<open>configparser\<close> (which stores every value as a string),
  \<^verbatim>\<open>argparse\<close> (which converts strings with the \<^verbatim>\<open>type=\<close> function of a flag) and the
  trial loop \<^verbatim>\<open>run_mcts\<close>. The values are modelled by a tagged union, so that the tag
  records the dynamic type the Python object has.

  A float is represented by the finite decimal that \<^verbatim>\<open>repr\<close> prints for it:
  \<open>Dec m k\<close> stands for \<open>m / 10 ^ k\<close>, kept without trailing zeros. Exponent
  notation, infinities, NaN and rounding to binary64 are outside this model.
\<close>

datatype pyfloat = Dec int nat

datatype pyval =
    VNone
  | VBool bool
  | VInt int
  | VFloat pyfloat
  | VStr string

text \<open>A Python \<^verbatim>\<open>dict\<close> with string keys is given by its items, in insertion order,
  with pairwise distinct keys.\<close>

type_synonym 'a dict = "(string \<times> 'a) list"

datatype error =
    TypeError
  | ValueError
  | AttributeError
  | IndexError
  | ZeroDivisionError
  | NoSectionError
  | NoOptionError
  | DuplicateOptionError
  | InterpolationNotModelled
  | SystemExit nat
  | TrialExecutionError nat

subsection \<open>Characters and decimal numerals\<close>

definition lower_char :: "char \<Rightarrow> char" where
  "lower_char c =
     (case map_of (zip ''ABCDEFGHIJKLMNOPQRSTUVWXYZ'' ''abcdefghijklmnopqrstuvwxyz'') c of
        Some d \<Rightarrow> d
      | None \<Rightarrow> c)"

text \<open>\<^verbatim>\<open>str.lower()\<close>, on ASCII.\<close>

definition lower :: "string \<Rightarrow> string" where
  "lower s = map lower_char s"

definition digit_of :: "char \<Rightarrow> nat option" where
  "digit_of c = map_of (zip ''0123456789'' [0, 1, 2, 3, 4, 5, 6, 7, 8, 9]) c"

definition char_of_digit :: "nat \<Rightarrow> char" where
  "char_of_digit d = ''0123456789'' ! d"

definition is_space :: "char \<Rightarrow> bool" where
  "is_space c =
     (c \<in> set [CHR '' '', CHR 0x09, CHR 0x0A, CHR 0x0B, CHR 0x0C, CHR 0x0D,
                CHR 0x1C, CHR 0x1D, CHR 0x1E, CHR 0x1F])"

text \<open>\<^verbatim>\<open>str.strip()\<close>, on ASCII white space.\<close>

definition strip :: "string \<Rightarrow> string" where
  "strip s = rev (dropWhile is_space (rev (dropWhile is_space s)))"

fun digits_val :: "string \<Rightarrow> nat \<Rightarrow> nat option" where
  "digits_val [] acc = Some acc"
| "digits_val (c # cs) acc =
     (case digit_of c of
        None \<Rightarrow> None
      | Some d \<Rightarrow> digits_val cs (10 * acc + d))"

text \<open>Underscores are allowed in a numeral only singly and between two digits.\<close>

fun drop_underscores :: "string \<Rightarrow> string option" where
  "drop_underscores [] = Some []"
| "drop_underscores [c] = (if c = CHR ''_'' then None else Some [c])"
| "drop_underscores (c # d # cs) =
     (if c = CHR ''_'' then None
      else if d = CHR ''_'' then
        (case drop_underscores cs of
           None \<Rightarrow> None
         | Some r \<Rightarrow> if cs = [] then None else Some (c # r))
      else
        (case drop_underscores (d # cs) of
           None \<Rightarrow> None
         | Some r \<Rightarrow> Some (c # r)))"

definition unsigned_of :: "string \<Rightarrow> nat option" where
  "unsigned_of s =
     (case drop_underscores s of
        None \<Rightarrow> None
      | Some ds \<Rightarrow> if ds = [] then None else digits_val ds 0)"

definition split_sign :: "string \<Rightarrow> bool \<times> string" where
  "split_sign s =
     (case s of
        [] \<Rightarrow> (False, [])
      | c # cs \<Rightarrow>
          if c = CHR ''-'' then (True, cs)
          else if c = CHR ''+'' then (False, cs)
          else (False, s))"

text \<open>\<^verbatim>\<open>int(s)\<close> for a string \<open>s\<close> of ASCII characters: \<open>None\<close> is the
  \<^verbatim>\<open>ValueError\<close>.\<close>

definition py_int :: "string \<Rightarrow> int option" where
  "py_int s =
     (case split_sign (strip s) of
        (neg, body) \<Rightarrow>
          (case unsigned_of body of
             None \<Rightarrow> None
           | Some n \<Rightarrow> Some (if neg then - int n else int n)))"

function norm_dec :: "int \<Rightarrow> nat \<Rightarrow> pyfloat" where
  "norm_dec m k =
     (if 0 < k \<and> m mod 10 = 0 then norm_dec (m div 10) (k - 1) else Dec m k)"
  by pat_completeness auto
termination
  by (relation "measure (\<lambda>(m, k). k)") auto

text \<open>\<^verbatim>\<open>float(s)\<close> for a string \<open>s\<close> written as a plain decimal
  (\<^verbatim>\<open>12\<close>, \<^verbatim>\<open>-2.0\<close>, \<^verbatim>\<open>.5\<close>, \<^verbatim>\<open>5.\<close>): \<open>None\<close> is the \<^verbatim>\<open>ValueError\<close>.\<close>

definition py_float :: "string \<Rightarrow> pyfloat option" where
  "py_float s =
     (case split_sign (strip s) of
        (neg, body) \<Rightarrow>
          (let ip = takeWhile (\<lambda>c. c \<noteq> CHR ''.'') body;
               fp = drop (Suc (length ip)) body
           in if ip = [] \<and> fp = [] then None
              else
                (case (if ip = [] then Some 0 else unsigned_of ip,
                       if fp = [] then Some 0 else digits_val fp 0) of
                   (Some i, Some f) \<Rightarrow>
                     (let m = int i * 10 ^ length fp + int f
                      in Some (norm_dec (if neg then - m else m) (length fp)))
                 | _ \<Rightarrow> None)))"

function digits_of :: "nat \<Rightarrow> string" where
  "digits_of n =
     (if n < 10 then [char_of_digit n]
      else digits_of (n div 10) @ [char_of_digit (n mod 10)])"
  by pat_completeness auto
termination
  by (relation "measure id") auto

text \<open>\<^verbatim>\<open>str(n)\<close> for an \<^verbatim>\<open>int\<close>.\<close>

definition str_int :: "int \<Rightarrow> string" where
  "str_int n = (if n < 0 then CHR ''-'' # digits_of (nat (- n)) else digits_of (nat n))"

text \<open>\<^verbatim>\<open>repr(x)\<close> for a float in positional notation.\<close>

definition str_float :: "pyfloat \<Rightarrow> string" where
  "str_float x =
     (case x of
        Dec m k \<Rightarrow>
          (let ds = digits_of (nat \<bar>m\<bar>);
               padded = replicate (Suc k - length ds) CHR ''0'' @ ds;
               ip = take (length padded - k) padded;
               fp = drop (length padded - k) padded
           in (if m < 0 then ''-'' else '''') @ ip @ ''.'' @ (if fp = [] then ''0'' else fp)))"

text \<open>\<^verbatim>\<open>str(v)\<close>, which \<^verbatim>\<open>ConfigParser.read_dict\<close> applies to every value
  other than \<^verbatim>\<open>None\<close>.\<close>

fun py_str :: "pyval \<Rightarrow> string" where
  "py_str VNone = ''None''"
| "py_str (VBool b) = (if b then ''True'' else ''False'')"
| "py_str (VInt n) = str_int n"
| "py_str (VFloat x) = str_float x"
| "py_str (VStr s) = s"

text \<open>Truth value of an object in a condition (\<^verbatim>\<open>if results.plotting:\<close>).\<close>

fun truthy :: "pyval \<Rightarrow> bool" where
  "truthy VNone = False"
| "truthy (VBool b) = b"
| "truthy (VInt n) = (n \<noteq> 0)"
| "truthy (VFloat (Dec m k)) = (m \<noteq> 0)"
| "truthy (VStr s) = (s \<noteq> [])"


section \<open>The configuration file layer: \<^verbatim>\<open>configparser.ConfigParser\<close>\<close>

text \<open>
  A \<^verbatim>\<open>ConfigParser\<close> holds the \<^verbatim>\<open>DEFAULT\<close> mapping and the named sections; every key
  is lower-cased by \<^verbatim>\<open>optionxform\<close> and every value is a string. Reading a dictionary is
  strict: a key that occurs twice in one section raises \<^verbatim>\<open>DuplicateOptionError\<close>, and a
  value \<^verbatim>\<open>None\<close> raises \<^verbatim>\<open>TypeError\<close>.

  \<^verbatim>\<open>%\<close>-interpolation is not modelled: where the library would validate or expand a
  value that contains \<^verbatim>\<open>%\<close>, the model stops with \<open>InterpolationNotModelled\<close>.
\<close>

record configparser =
  cp_defaults :: "string dict"
  cp_sections :: "(string \<times> string dict) list"

definition optionxform :: "string \<Rightarrow> string" where
  "optionxform k = lower k"

definition interpolate :: "string \<Rightarrow> error + string" where
  "interpolate v = (if CHR ''%'' \<in> set v then Inl InterpolationNotModelled else Inr v)"

text \<open>The inner loop of \<^verbatim>\<open>read_dict\<close> over the keys of one section. \<open>validate\<close> says
  whether \<^verbatim>\<open>set\<close> checks the interpolation syntax (it does not while the constructor
  reads the defaults); \<open>added\<close> is \<^verbatim>\<open>elements_added\<close>.\<close>

fun read_keys :: "bool \<Rightarrow> pyval dict \<Rightarrow> string list \<Rightarrow> string dict \<Rightarrow> error + string dict" where
  "read_keys validate [] added sectdict = Inr sectdict"
| "read_keys validate ((k, v) # kvs) added sectdict =
     (let key = optionxform k in
      if key \<in> set added then Inl DuplicateOptionError
      else if v = VNone then Inl TypeError
      else if validate \<and> CHR ''%'' \<in> set (py_str v) then Inl InterpolationNotModelled
      else read_keys validate kvs (key # added) (AList.update key (py_str v) sectdict))"

text \<open>\<^verbatim>\<open>configparser.ConfigParser(defaults)\<close>.\<close>

definition ConfigParser :: "pyval dict \<Rightarrow> error + configparser" where
  "ConfigParser defaults =
     (case read_keys False defaults [] [] of
        Inl e \<Rightarrow> Inl e
      | Inr d \<Rightarrow> Inr \<lparr>cp_defaults = d, cp_sections = []\<rparr>)"

text \<open>\<^verbatim>\<open>config.read_dict({section: dict(args[section]) for section in args.sections()})\<close>:
  the argument lists the sections of the file configuration, each with the items
  \<^verbatim>\<open>dict(args[section])\<close> has (section names distinct, \<^verbatim>\<open>DEFAULT\<close> not among them).\<close>

fun read_dict :: "configparser \<Rightarrow> (string \<times> string dict) list \<Rightarrow> error + configparser" where
  "read_dict cp [] = Inr cp"
| "read_dict cp ((section, keys) # rest) =
     (case read_keys True (map (\<lambda>(k, v). (k, VStr v)) keys) [] [] of
        Inl e \<Rightarrow> Inl e
      | Inr d \<Rightarrow> read_dict (cp\<lparr>cp_sections := cp_sections cp @ [(section, d)]\<rparr>) rest)"

text \<open>\<^verbatim>\<open>d.update(e)\<close> on dictionaries.\<close>

definition dict_update :: "'a dict \<Rightarrow> 'a dict \<Rightarrow> 'a dict" where
  "dict_update d e = foldl (\<lambda>acc (k, v). AList.update k v acc) d e"

text \<open>The section's own keys take priority over the \<^verbatim>\<open>DEFAULT\<close> mapping.\<close>

definition unify_values :: "configparser \<Rightarrow> string \<Rightarrow> error + string dict" where
  "unify_values cp section =
     (case map_of (cp_sections cp) section of
        None \<Rightarrow> Inl NoSectionError
      | Some sectiondict \<Rightarrow> Inr (dict_update (cp_defaults cp) sectiondict))"

fun interpolate_all :: "string dict \<Rightarrow> error + string dict" where
  "interpolate_all [] = Inr []"
| "interpolate_all ((k, v) # kvs) =
     (case interpolate v of
        Inl e \<Rightarrow> Inl e
      | Inr v' \<Rightarrow>
          (case interpolate_all kvs of
             Inl e \<Rightarrow> Inl e
           | Inr r \<Rightarrow> Inr ((k, v') # r)))"

text \<open>\<^verbatim>\<open>config.items(section)\<close>.\<close>

definition items :: "configparser \<Rightarrow> string \<Rightarrow> error + string dict" where
  "items cp section =
     (case unify_values cp section of
        Inl e \<Rightarrow> Inl e
      | Inr d \<Rightarrow> interpolate_all d)"

text \<open>\<^verbatim>\<open>config.get(section, option)\<close>.\<close>

definition get :: "configparser \<Rightarrow> string \<Rightarrow> string \<Rightarrow> error + string" where
  "get cp section option =
     (case unify_values cp section of
        Inl e \<Rightarrow> Inl e
      | Inr d \<Rightarrow>
          (case map_of d (optionxform option) of
             None \<Rightarrow> Inl NoOptionError
           | Some v \<Rightarrow> interpolate v))"

definition BOOLEAN_STATES :: "bool dict" where
  "BOOLEAN_STATES =
     [(''1'', True), (''yes'', True), (''true'', True), (''on'', True),
      (''0'', False), (''no'', False), (''false'', False), (''off'', False)]"

text \<open>\<^verbatim>\<open>config.getboolean(section, option)\<close>: a value that is not one of the eight
  words raises \<^verbatim>\<open>ValueError\<close>.\<close>

definition getboolean :: "configparser \<Rightarrow> string \<Rightarrow> string \<Rightarrow> error + bool" where
  "getboolean cp section option =
     (case get cp section option of
        Inl e \<Rightarrow> Inl e
      | Inr v \<Rightarrow>
          (case map_of BOOLEAN_STATES (lower v) of
             None \<Rightarrow> Inl ValueError
           | Some b \<Rightarrow> Inr b))"

section \<open>The command-line layer: \<^verbatim>\<open>argparse.ArgumentParser\<close>\<close>

text \<open>
  Each flag is added with a \<^verbatim>\<open>type=\<close> function and no \<^verbatim>\<open>default=\<close>, after
  \<^verbatim>\<open>set_defaults(**defaults)\<close>: the default of its action is the parser-level default of
  the same name, or \<^verbatim>\<open>None\<close>.
\<close>

datatype conv = ToFloat | ToInt | ToBool

record action =
  act_dest :: string
  act_type :: conv
  act_default :: pyval

text \<open>\<^verbatim>\<open>_get_value\<close>: the type function applied to an argument string. \<^verbatim>\<open>bool(s)\<close> is
  true for every non-empty string. A \<^verbatim>\<open>ValueError\<close> of the type function becomes the
  parser's error exit, status 2.\<close>

fun get_value :: "conv \<Rightarrow> string \<Rightarrow> error + pyval" where
  "get_value ToFloat s = (case py_float s of None \<Rightarrow> Inl (SystemExit 2) | Some x \<Rightarrow> Inr (VFloat x))"
| "get_value ToInt s = (case py_int s of None \<Rightarrow> Inl (SystemExit 2) | Some n \<Rightarrow> Inr (VInt n))"
| "get_value ToBool s = Inr (VBool (s \<noteq> []))"

definition add_argument :: "pyval dict \<Rightarrow> string \<Rightarrow> conv \<Rightarrow> action" where
  "add_argument defaults name ty =
     \<lparr>act_dest = name, act_type = ty,
      act_default = (case map_of defaults name of None \<Rightarrow> VNone | Some v \<Rightarrow> v)\<rparr>"

text \<open>The eight flags of \<^verbatim>\<open>mcts\<close>, in the order the source adds them.\<close>

definition flags :: "(string \<times> conv) list" where
  "flags =
     [(''lambda_arg'', ToFloat), (''collision'', ToFloat), (''loss'', ToFloat),
      (''depth'', ToFloat), (''simulations'', ToInt), (''plotting'', ToBool),
      (''trials'', ToInt), (''iterations'', ToInt)]"

text \<open>The actions of the parser, after \<^verbatim>\<open>set_defaults(**defaults)\<close> and the eight calls
  of \<^verbatim>\<open>add_argument\<close>.\<close>

definition parser_actions :: "pyval dict \<Rightarrow> action list" where
  "parser_actions defaults = map (\<lambda>(name, ty). add_argument defaults name ty) flags"

type_synonym namespace = "string \<rightharpoonup> pyval"

text \<open>Before scanning, the namespace gets the default of every action, then the
  parser-level defaults of the names that are not yet present.\<close>

definition initial_namespace :: "pyval dict \<Rightarrow> action list \<Rightarrow> namespace" where
  "initial_namespace defaults actions =
     map_of defaults ++ map_of (map (\<lambda>a. (act_dest a, act_default a)) actions)"

text \<open>The command line is given by the occurrences of flags that the scanner of
  \<^verbatim>\<open>parse_known_args\<close> finds in \<^verbatim>\<open>sys.argv[1:]\<close>, each with its argument string, in
  command-line order (\<^verbatim>\<open>--trials 1 --plotting true\<close> is
  \<open>[(''trials'', ''1''), (''plotting'', ''true'')]\<close>). Every occurrence is converted
  and stored, so the last one wins; what the scanner does not recognise is left over
  and ignored.\<close>

fun consume_optionals :: "action list \<Rightarrow> (string \<times> string) list \<Rightarrow> namespace \<Rightarrow> error + namespace" where
  "consume_optionals actions [] ns = Inr ns"
| "consume_optionals actions ((name, arg) # rest) ns =
     (case find (\<lambda>a. act_dest a = name) actions of
        None \<Rightarrow> consume_optionals actions rest ns
      | Some a \<Rightarrow>
          (case get_value (act_type a) arg of
             Inl e \<Rightarrow> Inl e
           | Inr v \<Rightarrow> consume_optionals actions rest (ns(name \<mapsto> v))))"

text \<open>After scanning, the default of an action that was not seen is converted by the
  type function when it is a string.\<close>

fun convert_defaults :: "action list \<Rightarrow> string list \<Rightarrow> namespace \<Rightarrow> error + namespace" where
  "convert_defaults [] seen ns = Inr ns"
| "convert_defaults (a # actions) seen ns =
     (if act_dest a \<in> set seen then convert_defaults actions seen ns
      else
        (case act_default a of
           VStr s \<Rightarrow>
             (case get_value (act_type a) s of
                Inl e \<Rightarrow> Inl e
              | Inr v \<Rightarrow> convert_defaults actions seen (ns(act_dest a \<mapsto> v)))
         | _ \<Rightarrow> convert_defaults actions seen ns))"

definition parse_known_args :: "pyval dict \<Rightarrow> action list \<Rightarrow> (string \<times> string) list \<Rightarrow> error + namespace" where
  "parse_known_args defaults actions argv =
     (case consume_optionals actions argv (initial_namespace defaults actions) of
        Inl e \<Rightarrow> Inl e
      | Inr ns \<Rightarrow> convert_defaults actions (map fst argv) ns)"


section \<open>The trial loop: \<^verbatim>\<open>run_mcts\<close>\<close>

text \<open>
  The objects the trial engine returns and the loop stores. A count is a number, a
  history of counts is a sequence; time stamps and durations come from the clock.
\<close>

datatype pyobj =
    Num real
  | Seq "pyobj list"
  | Stamp int
  | Elapsed int
  | Opaque nat

datatype sensor = Drone

datatype actions = SimpleActions

datatype rfstate = RFState

datatype env = RFEnv sensor actions rfstate | GivenEnv nat

text \<open>Modelled from the spec: the class \<^verbatim>\<open>Results\<close> of \<^verbatim>\<open>birdseye/utils.py\<close> is not part of
  the source at hand. Its handle is constructed with the method name, the start time,
  the number of runs and the plotting flag, and \<^verbatim>\<open>results.plotting\<close> reads the flag it
  was constructed with.\<close>

record results =
  res_method_name :: string
  res_global_start_time :: "int option"
  res_num_iters :: pyval
  res_plotting :: pyval

text \<open>The arguments of one call of \<^verbatim>\<open>mcts_trial\<close>, in the order of the call.\<close>

record trial_args =
  ta_env :: env
  ta_iterations :: pyval
  ta_depth :: pyval
  ta_horizon :: int
  ta_plotting :: pyval
  ta_simulations :: pyval
  ta_fig :: "nat option"
  ta_ax :: "nat option"
  ta_results :: results

datatype line =
    Dot
  | RuleNL
  | Runs int
  | Simulations pyval
  | Depth pyval
  | CollisionRate real
  | LossRate real
  | Rule

text \<open>Modelled from the spec: \<^verbatim>\<open>write_header_log\<close>, \<^verbatim>\<open>write_dataframe\<close> and \<^verbatim>\<open>save_gif\<close>
  belong to \<^verbatim>\<open>birdseye/utils.py\<close>, and \<^verbatim>\<open>mcts_trial\<close> to \<^verbatim>\<open>birdseye/mcts_utils.py\<close>, which
  are not part of the source at hand. They are consumed through their calls: an event
  records a call the program makes, with its arguments, in the order of the calls; the
  printed progress lines are events as well.\<close>

datatype event =
    WriteHeaderLog configparser string int
  | MctsTrial trial_args
  | Print line
  | WriteDataframe "pyobj list list"
  | SaveGif int

text \<open>The state of the loop: the number of clock readings taken so far, the local list
  \<^verbatim>\<open>run_data\<close>, and the calls made so far.\<close>

record loop_state =
  ticks :: nat
  run_data :: "pyobj list list"
  trace :: "event list"

text \<open>\<^verbatim>\<open>config.name\<close> on a namespace.\<close>

definition getattr :: "namespace \<Rightarrow> string \<Rightarrow> error + pyval" where
  "getattr ns name = (case ns name of None \<Rightarrow> Inl AttributeError | Some v \<Rightarrow> Inr v)"

text \<open>\<^verbatim>\<open>range(1, num_runs + 1)\<close>: \<^verbatim>\<open>bool\<close> is a subtype of \<^verbatim>\<open>int\<close>; every other type of
  \<^verbatim>\<open>num_runs\<close> raises \<^verbatim>\<open>TypeError\<close>, in the addition or in \<^verbatim>\<open>range\<close>.\<close>

fun trial_range :: "pyval \<Rightarrow> error + int list" where
  "trial_range (VInt n) = Inr [1..n]"
| "trial_range (VBool b) = Inr [1..(if b then 1 else 0)]"
| "trial_range v = Inl TypeError"

text \<open>\<^verbatim>\<open>result[1:]\<close>, added to a list: the result has to be a list.\<close>

fun slice_from1 :: "pyobj \<Rightarrow> error + pyobj list" where
  "slice_from1 (Seq xs) = Inr (tl xs)"
| "slice_from1 v = Inl TypeError"

text \<open>\<^verbatim>\<open>result[n][-1]\<close>.\<close>

fun getitem :: "pyobj \<Rightarrow> nat \<Rightarrow> error + pyobj" where
  "getitem (Seq xs) n = (if n < length xs then Inr (xs ! n) else Inl IndexError)"
| "getitem v n = Inl TypeError"

fun getlast :: "pyobj \<Rightarrow> error + pyobj" where
  "getlast (Seq xs) = (if xs = [] then Inl IndexError else Inr (last xs))"
| "getlast v = Inl TypeError"

definition last_of_item :: "pyobj \<Rightarrow> nat \<Rightarrow> error + pyobj" where
  "last_of_item result n =
     (case getitem result n of
        Inl e \<Rightarrow> Inl e
      | Inr h \<Rightarrow> getlast h)"

text \<open>\<^verbatim>\<open>count / i\<close>: true division of a number by the trial index.\<close>

fun truediv :: "pyobj \<Rightarrow> int \<Rightarrow> error + real" where
  "truediv (Num c) i = (if i = 0 then Inl ZeroDivisionError else Inr (c / real_of_int i))"
| "truediv v i = Inl TypeError"

text \<open>
  One pass through the body of the \<^verbatim>\<open>for\<close> loop. The trial engine is stochastic and
  shares the \<^verbatim>\<open>results\<close> handle, so its outcome is a function of its arguments and of
  the index of the trial; \<open>Inl\<close> is an exception it raises. \<open>clock n\<close> is what the
  \<open>n\<close>-th call of \<^verbatim>\<open>datetime.now()\<close> returns. \<^verbatim>\<open>write_dataframe\<close> and \<^verbatim>\<open>save_gif\<close> are
  taken to return normally.
\<close>

definition trial_body ::
  "(trial_args \<Rightarrow> int \<Rightarrow> error + pyobj) \<Rightarrow> (nat \<Rightarrow> int) \<Rightarrow> trial_args \<Rightarrow> int \<Rightarrow>
     loop_state \<Rightarrow> loop_state \<times> error option" where
  "trial_body mcts_trial clock args i s =
     (let run_start_time = clock (ticks s);
          s1 = s\<lparr>ticks := ticks s + 1, trace := trace s @ [MctsTrial args]\<rparr>
      in case mcts_trial args i of
           Inl e \<Rightarrow> (s1, Some e)
         | Inr result \<Rightarrow>
             (let run_time = clock (ticks s1) - run_start_time;
                  now = clock (ticks s1 + 1);
                  s2 = s1\<lparr>ticks := ticks s1 + 2\<rparr>
              in case slice_from1 result of
                   Inl e \<Rightarrow> (s2, Some e)
                 | Inr rest \<Rightarrow>
                     (let s3 = s2\<lparr>run_data := run_data s2 @ [[Stamp now, Elapsed run_time] @ rest]\<rparr>
                      in case last_of_item result 6 of
                           Inl e \<Rightarrow> (s3, Some e)
                         | Inr mcts_coll \<Rightarrow>
                             (case last_of_item result 7 of
                                Inl e \<Rightarrow> (s3, Some e)
                              | Inr mcts_loss \<Rightarrow>
                                  (let s4 = s3\<lparr>trace := trace s3 @
                                         [Print Dot, Print RuleNL, Print (Runs i),
                                          Print (Simulations (ta_simulations args)),
                                          Print (Depth (ta_depth args))]\<rparr>
                                   in case truediv mcts_coll i of
                                        Inl e \<Rightarrow> (s4, Some e)
                                      | Inr coll_rate \<Rightarrow>
                                          (let s5 = s4\<lparr>trace := trace s4 @ [Print (CollisionRate coll_rate)]\<rparr>
                                           in case truediv mcts_loss i of
                                                Inl e \<Rightarrow> (s5, Some e)
                                              | Inr loss_rate \<Rightarrow>
                                                  (s5\<lparr>trace := trace s5 @
                                                       [Print (LossRate loss_rate), Print Rule,
                                                        WriteDataframe (run_data s5)] @
                                                       (if truthy (res_plotting (ta_results args))
                                                        then [SaveGif i] else [])\<rparr>,
                                                   None)))))))"

text \<open>The \<^verbatim>\<open>for\<close> loop: an exception ends it, with the state it was raised in.\<close>

fun trial_loop ::
  "(trial_args \<Rightarrow> int \<Rightarrow> error + pyobj) \<Rightarrow> (nat \<Rightarrow> int) \<Rightarrow> trial_args \<Rightarrow> int list \<Rightarrow>
     loop_state \<Rightarrow> loop_state \<times> error option" where
  "trial_loop mcts_trial clock args [] s = (s, None)"
| "trial_loop mcts_trial clock args (i # is) s =
     (case trial_body mcts_trial clock args i s of
        (s', Some e) \<Rightarrow> (s', Some e)
      | (s', None) \<Rightarrow> trial_loop mcts_trial clock args is s')"

text \<open>
  \<^verbatim>\<open>run_mcts(env, config, fig, ax, global_start_time, mcts_defaults)\<close>. The state
  \<open>s0\<close> holds what happened before the call (the clock readings taken and the calls
  made); the function returns the state at its end and the exception that ended it,
  if any.
\<close>

definition run_mcts ::
  "(trial_args \<Rightarrow> int \<Rightarrow> error + pyobj) \<Rightarrow> (nat \<Rightarrow> int) \<Rightarrow> loop_state \<Rightarrow>
     env \<Rightarrow> namespace option \<Rightarrow> nat option \<Rightarrow> nat option \<Rightarrow> int option \<Rightarrow> pyval dict \<Rightarrow>
     loop_state \<times> error option" where
  "run_mcts mcts_trial clock s0 env config fig ax global_start_time mcts_defaults =
     (let config' = (case config of None \<Rightarrow> map_of mcts_defaults | Some ns \<Rightarrow> ns);
          s = s0\<lparr>run_data := []\<rparr>
      in case getattr config' ''simulations'' of
           Inl e \<Rightarrow> (s, Some e)
         | Inr simulations \<Rightarrow>
      (case getattr config' ''depth'' of
           Inl e \<Rightarrow> (s, Some e)
         | Inr DEPTH \<Rightarrow>
      (case getattr config' ''trials'' of
           Inl e \<Rightarrow> (s, Some e)
         | Inr num_runs \<Rightarrow>
      (case getattr config' ''iterations'' of
           Inl e \<Rightarrow> (s, Some e)
         | Inr iterations \<Rightarrow>
      (case getattr config' ''plotting'' of
           Inl e \<Rightarrow> (s, Some e)
         | Inr plotting \<Rightarrow>
      (let results = \<lparr>res_method_name = ''mcts'', res_global_start_time = global_start_time,
                      res_num_iters = num_runs, res_plotting = plotting\<rparr>;
           args = \<lparr>ta_env = env, ta_iterations = iterations, ta_depth = DEPTH,
                   ta_horizon = 20, ta_plotting = plotting, ta_simulations = simulations,
                   ta_fig = fig, ta_ax = ax, ta_results = results\<rparr>
       in case trial_range num_runs of
            Inl e \<Rightarrow> (s, Some e)
          | Inr indices \<Rightarrow> trial_loop mcts_trial clock args indices s))))))"

section \<open>The entry point: \<^verbatim>\<open>mcts\<close>\<close>

text \<open>The first part of \<^verbatim>\<open>mcts\<close>: with a file configuration, the defaults handed to the
  argument parser are the items of its section \<^verbatim>\<open>Defaults\<close> (strings), with
  \<^verbatim>\<open>plotting\<close> replaced by its boolean reading; without one they are \<open>mcts_defaults\<close>.\<close>

definition file_defaults ::
  "(string \<times> string dict) list option \<Rightarrow> pyval dict \<Rightarrow> error + (pyval dict \<times> configparser option)" where
  "file_defaults args mcts_defaults =
     (case args of
        None \<Rightarrow> Inr (mcts_defaults, None)
      | Some sections \<Rightarrow>
          (case ConfigParser mcts_defaults of
             Inl e \<Rightarrow> Inl e
           | Inr config0 \<Rightarrow>
          (case read_dict config0 sections of
             Inl e \<Rightarrow> Inl e
           | Inr config \<Rightarrow>
          (case items config ''Defaults'' of
             Inl e \<Rightarrow> Inl e
           | Inr its \<Rightarrow>
          (case getboolean config ''Defaults'' ''plotting'' of
             Inl e \<Rightarrow> Inl e
           | Inr b \<Rightarrow>
               Inr (AList.update ''plotting'' (VBool b) (map (\<lambda>(k, v). (k, VStr v)) its),
                    Some config))))))"

text \<open>The configuration the entry point resolves: the namespace that
  \<^verbatim>\<open>parse_known_args\<close> returns.\<close>

definition resolve ::
  "(string \<times> string) list \<Rightarrow> (string \<times> string dict) list option \<Rightarrow> pyval dict \<Rightarrow>
     error + (namespace \<times> configparser option)" where
  "resolve argv args mcts_defaults =
     (case file_defaults args mcts_defaults of
        Inl e \<Rightarrow> Inl e
      | Inr (defaults, config) \<Rightarrow>
          (case parse_known_args defaults (parser_actions defaults) argv of
             Inl e \<Rightarrow> Inl e
           | Inr ns \<Rightarrow> Inr (ns, config)))"

text \<open>
  \<^verbatim>\<open>mcts(args, env, mcts_defaults)\<close>, with the command line \<open>argv\<close>, the trial engine
  and the clock it reads. \<open>args\<close> is the file configuration; an environment that is
  not supplied is built from the default sensor, actions and state.
\<close>

definition mcts ::
  "(trial_args \<Rightarrow> int \<Rightarrow> error + pyobj) \<Rightarrow> (nat \<Rightarrow> int) \<Rightarrow> (string \<times> string) list \<Rightarrow>
     (string \<times> string dict) list option \<Rightarrow> env option \<Rightarrow> pyval dict \<Rightarrow>
     loop_state \<times> error option" where
  "mcts mcts_trial clock argv args env mcts_defaults =
     (let s0 = \<lparr>ticks = 0, run_data = [], trace = []\<rparr>
      in case resolve argv args mcts_defaults of
           Inl e \<Rightarrow> (s0, Some e)
         | Inr (ns, config) \<Rightarrow>
             (let env' = (case env of None \<Rightarrow> RFEnv Drone SimpleActions RFState | Some v \<Rightarrow> v);
                  global_start_time = clock 0;
                  s1 = s0\<lparr>ticks := 1,
                          trace := (case config of
                                      None \<Rightarrow> []
                                    | Some c \<Rightarrow> [WriteHeaderLog c ''mcts'' global_start_time])\<rparr>
              in run_mcts mcts_trial clock s1 env' (Some ns) None None
                   (Some global_start_time) mcts_defaults))"

section \<open>Observations on a run\<close>

text \<open>The calls a trace holds, by kind, in the order they were made.\<close>

definition trial_calls :: "event list \<Rightarrow> trial_args list" where
  "trial_calls tr = concat (map (\<lambda>e. case e of MctsTrial a \<Rightarrow> [a] | _ \<Rightarrow> []) tr)"

definition writes :: "event list \<Rightarrow> pyobj list list list" where
  "writes tr = concat (map (\<lambda>e. case e of WriteDataframe rd \<Rightarrow> [rd] | _ \<Rightarrow> []) tr)"

definition gifs :: "event list \<Rightarrow> int list" where
  "gifs tr = concat (map (\<lambda>e. case e of SaveGif i \<Rightarrow> [i] | _ \<Rightarrow> []) tr)"

definition headers :: "event list \<Rightarrow> (configparser \<times> string \<times> int) list" where
  "headers tr = concat (map (\<lambda>e. case e of WriteHeaderLog c m t \<Rightarrow> [(c, m, t)] | _ \<Rightarrow> []) tr)"

definition rate_lines :: "event list \<Rightarrow> line list" where
  "rate_lines tr =
     concat (map (\<lambda>e. case e of
                        Print (CollisionRate r) \<Rightarrow> [CollisionRate r]
                      | Print (LossRate r) \<Rightarrow> [LossRate r]
                      | _ \<Rightarrow> []) tr)"

text \<open>The latest cumulative collision and loss counts of an outcome: the last elements
  of the sequences at positions 6 and 7 of a list. An outcome that has them is one the
  loop body gets through.\<close>

definition counts :: "pyobj \<Rightarrow> (real \<times> real) option" where
  "counts result =
     (case slice_from1 result of
        Inl e \<Rightarrow> None
      | Inr rest \<Rightarrow>
          (case last_of_item result 6 of
             Inr (Num c) \<Rightarrow>
               (case last_of_item result 7 of
                  Inr (Num l) \<Rightarrow> Some (c, l)
                | _ \<Rightarrow> None)
           | _ \<Rightarrow> None))"

text \<open>The record the body appends for an outcome, when it starts at clock reading \<open>t\<close>.\<close>

definition trial_record :: "(nat \<Rightarrow> int) \<Rightarrow> nat \<Rightarrow> pyobj \<Rightarrow> pyobj list" where
  "trial_record clock t result =
     [Stamp (clock (t + 2)), Elapsed (clock (t + 1) - clock t)] @
     (case result of Seq xs \<Rightarrow> tl xs | _ \<Rightarrow> [])"

text \<open>The calls of one completed trial \<open>i\<close> with counts \<open>c\<close> and \<open>l\<close>, when the
  record sequence after its append is \<open>rd\<close>.\<close>

definition trial_events :: "trial_args \<Rightarrow> int \<Rightarrow> real \<Rightarrow> real \<Rightarrow> pyobj list list \<Rightarrow> event list" where
  "trial_events args i c l rd =
     [MctsTrial args, Print Dot, Print RuleNL, Print (Runs i),
      Print (Simulations (ta_simulations args)), Print (Depth (ta_depth args)),
      Print (CollisionRate (c / real_of_int i)), Print (LossRate (l / real_of_int i)),
      Print Rule, WriteDataframe rd] @
     (if truthy (res_plotting (ta_results args)) then [SaveGif i] else [])"

text \<open>The records of trials \<open>1..n\<close> with outcomes \<open>out\<close>, for a loop that starts at
  clock reading \<open>t0\<close>: each trial reads the clock three times.\<close>

definition records :: "(nat \<Rightarrow> int) \<Rightarrow> nat \<Rightarrow> (int \<Rightarrow> pyobj) \<Rightarrow> nat \<Rightarrow> pyobj list list" where
  "records clock t0 out n =
     map (\<lambda>i. trial_record clock (t0 + 3 * nat (i - 1)) (out i)) [1..int n]"

text \<open>The arguments \<^verbatim>\<open>run_mcts\<close> builds from the attributes of its configuration.\<close>

definition call_args ::
  "env \<Rightarrow> pyval \<Rightarrow> pyval \<Rightarrow> pyval \<Rightarrow> pyval \<Rightarrow> pyval \<Rightarrow> nat option \<Rightarrow> nat option \<Rightarrow>
     int option \<Rightarrow> trial_args" where
  "call_args env simulations DEPTH num_runs iterations plotting fig ax global_start_time =
     \<lparr>ta_env = env, ta_iterations = iterations, ta_depth = DEPTH, ta_horizon = 20,
      ta_plotting = plotting, ta_simulations = simulations, ta_fig = fig, ta_ax = ax,
      ta_results = \<lparr>res_method_name = ''mcts'', res_global_start_time = global_start_time,
                     res_num_iters = num_runs, res_plotting = plotting\<rparr>\<rparr>"

text \<open>Trials \<open>1..n\<close> complete, with outcomes \<open>out\<close> and counts \<open>c\<close> and \<open>l\<close>.\<close>

definition trials_complete ::
  "(trial_args \<Rightarrow> int \<Rightarrow> error + pyobj) \<Rightarrow> trial_args \<Rightarrow> nat \<Rightarrow>
     (int \<Rightarrow> pyobj) \<Rightarrow> (int \<Rightarrow> real) \<Rightarrow> (int \<Rightarrow> real) \<Rightarrow> bool" where
  "trials_complete mcts_trial args n out c l =
     (\<forall>i\<in>{1..int n}. mcts_trial args i = Inr (out i) \<and> counts (out i) = Some (c i, l i))"


text \<open>The argument of the last occurrence of a flag on the command line.\<close>

definition last_arg :: "(string \<times> string) list \<Rightarrow> string \<Rightarrow> string option" where
  "last_arg argv name = map_of (rev argv) name"

text \<open>The default of the action of a flag.\<close>

definition default_of :: "pyval dict \<Rightarrow> string \<Rightarrow> pyval" where
  "default_of defaults name = (case map_of defaults name of None \<Rightarrow> VNone | Some v \<Rightarrow> v)"

text \<open>What a flag resolves to, given the argument of its last occurrence on the command
  line (if any) and the default of its action: the converted argument; else the
  converted default when the default is a string; else the default as it is.\<close>

definition resolved :: "conv \<Rightarrow> string option \<Rightarrow> pyval \<Rightarrow> error + pyval" where
  "resolved ty cli dflt =
     (case cli of
        Some arg \<Rightarrow> get_value ty arg
      | None \<Rightarrow> (case dflt of VStr s \<Rightarrow> get_value ty s | _ \<Rightarrow> Inr dflt))"

subsection \<open>A scenario\<close>

text \<open>The built-in defaults of the scenario in the specification, a trial engine whose
  \<open>i\<close>-th outcome reports \<open>i\<close> collisions and one loss, and a clock that advances by
  one at each reading.\<close>

definition scenario_defaults :: "pyval dict" where
  "scenario_defaults =
     [(''trials'', VInt 3), (''simulations'', VInt 10), (''depth'', VInt 5),
      (''iterations'', VInt 50), (''plotting'', VBool False),
      (''lambda_arg'', VFloat (Dec 8 1)), (''collision'', VFloat (Dec (- 2) 0)),
      (''loss'', VFloat (Dec (- 2) 0))]"

definition steady_outcome :: "int \<Rightarrow> pyobj" where
  "steady_outcome i =
     Seq [Opaque 0, Opaque 1, Opaque 2, Opaque 3, Opaque 4, Opaque 5,
          Seq [Num 0, Num (real_of_int i)], Seq [Num 1]]"

definition steady_trial :: "trial_args \<Rightarrow> int \<Rightarrow> error + pyobj" where
  "steady_trial args i = Inr (steady_outcome i)"

text \<open>An engine that raises in trial 2.\<close>

definition failing_trial :: "trial_args \<Rightarrow> int \<Rightarrow> error + pyobj" where
  "failing_trial args i = (if i = 2 then Inl (TrialExecutionError 1) else Inr (steady_outcome i))"

definition tick_clock :: "nat \<Rightarrow> int" where
  "tick_clock n = 100 + int n"


section \<open>Properties\<close>

subsection \<open>Reading a trace\<close>

lemma writes_append [simp]: "writes (a @ b) = writes a @ writes b"
  by (simp add: writes_def)

lemma trial_calls_append [simp]: "trial_calls (a @ b) = trial_calls a @ trial_calls b"
  by (simp add: trial_calls_def)

lemma gifs_append [simp]: "gifs (a @ b) = gifs a @ gifs b"
  by (simp add: gifs_def)

lemma headers_append [simp]: "headers (a @ b) = headers a @ headers b"
  by (simp add: headers_def)

lemma rate_lines_append [simp]: "rate_lines (a @ b) = rate_lines a @ rate_lines b"
  by (simp add: rate_lines_def)

lemma extract_Nil [simp]:
  "writes [] = []" "trial_calls [] = []" "gifs [] = []" "headers [] = []" "rate_lines [] = []"
  by (simp_all add: writes_def trial_calls_def gifs_def headers_def rate_lines_def)

lemma extract_MctsTrial [simp]:
  "trial_calls (MctsTrial a # es) = a # trial_calls es"
  "writes (MctsTrial a # es) = writes es"
  "headers (MctsTrial a # es) = headers es"
  "gifs (MctsTrial a # es) = gifs es"
  "rate_lines (MctsTrial a # es) = rate_lines es"
  by (simp_all add: writes_def trial_calls_def gifs_def headers_def rate_lines_def)

lemma extract_Print [simp]:
  "trial_calls (Print x # es) = trial_calls es"
  "writes (Print x # es) = writes es"
  "headers (Print x # es) = headers es"
  "gifs (Print x # es) = gifs es"
  by (simp_all add: writes_def trial_calls_def gifs_def headers_def)

lemma extract_WriteDataframe [simp]:
  "trial_calls (WriteDataframe rd # es) = trial_calls es"
  "writes (WriteDataframe rd # es) = rd # writes es"
  "headers (WriteDataframe rd # es) = headers es"
  "gifs (WriteDataframe rd # es) = gifs es"
  "rate_lines (WriteDataframe rd # es) = rate_lines es"
  by (simp_all add: writes_def trial_calls_def gifs_def headers_def rate_lines_def)

lemma extract_SaveGif [simp]:
  "trial_calls (SaveGif i # es) = trial_calls es"
  "writes (SaveGif i # es) = writes es"
  "headers (SaveGif i # es) = headers es"
  "gifs (SaveGif i # es) = i # gifs es"
  "rate_lines (SaveGif i # es) = rate_lines es"
  by (simp_all add: writes_def trial_calls_def gifs_def headers_def rate_lines_def)

lemma extract_WriteHeaderLog [simp]:
  "trial_calls (WriteHeaderLog cp m t # es) = trial_calls es"
  "writes (WriteHeaderLog cp m t # es) = writes es"
  "headers (WriteHeaderLog cp m t # es) = (cp, m, t) # headers es"
  "gifs (WriteHeaderLog cp m t # es) = gifs es"
  "rate_lines (WriteHeaderLog cp m t # es) = rate_lines es"
  by (simp_all add: writes_def trial_calls_def gifs_def headers_def rate_lines_def)

lemma writes_trial_events [simp]: "writes (trial_events args i c l rd) = [rd]"
  by (simp add: writes_def trial_events_def)

lemma trial_calls_trial_events [simp]: "trial_calls (trial_events args i c l rd) = [args]"
  by (simp add: trial_calls_def trial_events_def)

lemma headers_trial_events [simp]: "headers (trial_events args i c l rd) = []"
  by (simp add: headers_def trial_events_def)

lemma gifs_trial_events [simp]:
  "gifs (trial_events args i c l rd) = (if truthy (res_plotting (ta_results args)) then [i] else [])"
  by (simp add: gifs_def trial_events_def)

lemma rate_lines_trial_events [simp]:
  "rate_lines (trial_events args i c l rd) =
     [CollisionRate (c / real_of_int i), LossRate (l / real_of_int i)]"
  by (simp add: rate_lines_def trial_events_def)

lemma writes_concat_blocks:
  "writes (concat (map (\<lambda>i. trial_events args i (c i) (l i) (rd i)) is)) = map rd is"
  by (induction "is") simp_all

lemma trial_calls_concat_blocks:
  "trial_calls (concat (map (\<lambda>i. trial_events args i (c i) (l i) (rd i)) is)) =
     replicate (length is) args"
  by (induction "is") simp_all

lemma rate_lines_concat_blocks:
  "rate_lines (concat (map (\<lambda>i. trial_events args i (c i) (l i) (rd i)) is)) =
     concat (map (\<lambda>i. [CollisionRate (c i / real_of_int i), LossRate (l i / real_of_int i)]) is)"
  by (induction "is") simp_all

lemma gifs_concat_blocks:
  "gifs (concat (map (\<lambda>i. trial_events args i (c i) (l i) (rd i)) is)) =
     (if truthy (res_plotting (ta_results args)) then is else [])"
  by (induction "is") simp_all

lemma call_args_sel [simp]:
  "ta_horizon (call_args env sv dv nv iv pv fig ax gst) = 20"
  "ta_env (call_args env sv dv nv iv pv fig ax gst) = env"
  "ta_fig (call_args env sv dv nv iv pv fig ax gst) = fig"
  "ta_ax (call_args env sv dv nv iv pv fig ax gst) = ax"
  "ta_iterations (call_args env sv dv nv iv pv fig ax gst) = iv"
  "ta_depth (call_args env sv dv nv iv pv fig ax gst) = dv"
  "ta_plotting (call_args env sv dv nv iv pv fig ax gst) = pv"
  "ta_simulations (call_args env sv dv nv iv pv fig ax gst) = sv"
  "ta_results (call_args env sv dv nv iv pv fig ax gst) =
     \<lparr>res_method_name = ''mcts'', res_global_start_time = gst, res_num_iters = nv,
      res_plotting = pv\<rparr>"
  by (simp_all add: call_args_def)

subsection \<open>The loop\<close>

lemma trial_loop_append:
  "trial_loop f clk a (xs @ ys) s =
     (case trial_loop f clk a xs s of
        (s', Some e) \<Rightarrow> (s', Some e)
      | (s', None) \<Rightarrow> trial_loop f clk a ys s')"
  by (induction xs arbitrary: s) (auto split: prod.splits option.splits)

lemma counts_SomeD:
  assumes "counts out = Some (c, l)"
  shows "\<exists>xs. out = Seq xs \<and> last_of_item out 6 = Inr (Num c) \<and> last_of_item out 7 = Inr (Num l)"
  using assms
  by (cases out) (auto simp: counts_def split: sum.splits pyobj.splits)

lemma trial_body_completes:
  assumes "mcts_trial args i = Inr out" and "counts out = Some (c, l)" and "i \<noteq> 0"
  shows "trial_body mcts_trial clock args i s =
     (s\<lparr>ticks := ticks s + 3,
        run_data := run_data s @ [trial_record clock (ticks s) out],
        trace := trace s @ trial_events args i c l (run_data s @ [trial_record clock (ticks s) out])\<rparr>,
      None)"
proof -
  from counts_SomeD [OF assms(2)] obtain xs where
    o: "out = Seq xs" "last_of_item out 6 = Inr (Num c)" "last_of_item out 7 = Inr (Num l)"
    by blast
  show ?thesis
    using assms(1,3) o(2,3) unfolding o(1)
    by (simp add: trial_body_def Let_def trial_record_def trial_events_def)
qed

lemma trial_body_raises:
  assumes "mcts_trial args i = Inl e"
  shows "trial_body mcts_trial clock args i s =
     (s\<lparr>ticks := ticks s + 1, trace := trace s @ [MctsTrial args]\<rparr>, Some e)"
  using assms by (simp add: trial_body_def)

lemma upto_Suc_int: "[1..int (Suc n)] = [1..int n] @ [int n + 1]"
  by (simp add: upto_rec2 add.commute)

lemma upto_split_raise:
  "k < N \<Longrightarrow> [1..int N] = [1..int k] @ (int k + 1) # [int k + 2..int N]"
  using upto_split3 [of 1 "int k + 1" "int N"] by (simp add: add.commute)

lemma records_Suc:
  "records clock t0 out (Suc n) = records clock t0 out n @ [trial_record clock (t0 + 3 * n) (out (int n + 1))]"
  unfolding records_def upto_Suc_int by simp

lemma length_records [simp]: "length (records clock t0 out n) = n"
  by (simp add: records_def)

lemma nth_records:
  "k < n \<Longrightarrow> records clock t0 out n ! k = trial_record clock (t0 + 3 * k) (out (int k + 1))"
  by (simp add: records_def add.commute)

lemma take_records: "j \<le> n \<Longrightarrow> take j (records clock t0 out n) = records clock t0 out j"
  by (rule nth_equalityI) (simp_all add: nth_records)

lemma records_eq_map:
  "records clock t0 out n = map (\<lambda>j. trial_record clock (t0 + 3 * j) (out (int j + 1))) [0..<n]"
  by (rule nth_equalityI) (simp_all add: nth_records)

lemma prefix_records: "j \<le> n \<Longrightarrow> prefix (records clock t0 out j) (records clock t0 out n)"
  using take_is_prefix [of j "records clock t0 out n"] by (simp add: take_records)

lemma blocks_take:
  "map (\<lambda>i. trial_events args i (c i) (l i) (take (nat i) (records clock t0 out N))) [1..int N] =
   map (\<lambda>i. trial_events args i (c i) (l i) (records clock t0 out (nat i))) [1..int N]"
  by (rule map_cong) (auto simp: take_records nat_le_iff)

lemma trials_complete_le:
  "trials_complete mcts_trial args n out c l \<Longrightarrow> j \<le> n \<Longrightarrow>
     trials_complete mcts_trial args j out c l"
  by (simp add: trials_complete_def)

lemma trial_loop_completes:
  assumes "trials_complete mcts_trial args n out c l"
  shows "trial_loop mcts_trial clock args [1..int n] s =
     (s\<lparr>ticks := ticks s + 3 * n,
        run_data := run_data s @ records clock (ticks s) out n,
        trace := trace s @ concat (map (\<lambda>i. trial_events args i (c i) (l i)
                     (run_data s @ records clock (ticks s) out (nat i))) [1..int n])\<rparr>,
      None)"
  using assms
proof (induction n)
  case 0
  then show ?case by (simp add: records_def)
next
  case (Suc n)
  have prev: "trials_complete mcts_trial args n out c l"
    using Suc.prems by (rule trials_complete_le) simp
  have cur: "mcts_trial args (int n + 1) = Inr (out (int n + 1))"
      "counts (out (int n + 1)) = Some (c (int n + 1), l (int n + 1))"
    using Suc.prems by (simp_all add: trials_complete_def)
  have nz: "int n + 1 \<noteq> 0" by simp
  have body: "trial_body mcts_trial clock args (int n + 1) s' =
     (s'\<lparr>ticks := ticks s' + 3,
        run_data := run_data s' @ [trial_record clock (ticks s') (out (int n + 1))],
        trace := trace s' @ trial_events args (int n + 1) (c (int n + 1)) (l (int n + 1))
                   (run_data s' @ [trial_record clock (ticks s') (out (int n + 1))])\<rparr>,
      None)" for s'
    using cur nz by (rule trial_body_completes)
  show ?case
    unfolding upto_Suc_int trial_loop_append Suc.IH [OF prev]
    by (simp add: body records_Suc nat_add_distrib)
qed

lemma run_mcts_loop:
  assumes "ns ''simulations'' = Some simulations" and "ns ''depth'' = Some DEPTH"
    and "ns ''trials'' = Some (VInt N)" and "ns ''iterations'' = Some iterations"
    and "ns ''plotting'' = Some plotting"
  shows "run_mcts mcts_trial clock s0 env (Some ns) fig ax gst d =
     trial_loop mcts_trial clock
       (call_args env simulations DEPTH (VInt N) iterations plotting fig ax gst)
       [1..N] (s0\<lparr>run_data := []\<rparr>)"
  using assms by (simp add: run_mcts_def getattr_def call_args_def)

lemma run_mcts_completes:
  assumes attrs: "ns ''simulations'' = Some simulations" "ns ''depth'' = Some DEPTH"
      "ns ''trials'' = Some (VInt (int N))" "ns ''iterations'' = Some iterations"
      "ns ''plotting'' = Some plotting"
    and args: "args = call_args env simulations DEPTH (VInt (int N)) iterations plotting fig ax gst"
    and ok: "trials_complete mcts_trial args N out c l"
  shows "run_mcts mcts_trial clock s0 env (Some ns) fig ax gst d =
     (s0\<lparr>ticks := ticks s0 + 3 * N,
         run_data := records clock (ticks s0) out N,
         trace := trace s0 @ concat (map (\<lambda>i. trial_events args i (c i) (l i)
                     (records clock (ticks s0) out (nat i))) [1..int N])\<rparr>,
      None)"
  unfolding run_mcts_loop [OF attrs] args [symmetric]
  by (simp add: trial_loop_completes [OF ok])

text \<open>
What one pass through the body adds to the trace, whatever the engine returns.
\<close>

lemma trial_body_trace:
  "\<exists>evs. trace (fst (trial_body mcts_trial clock args i s)) = trace s @ evs \<and>
     trial_calls evs = [args] \<and> headers evs = []"
  by (auto simp: trial_body_def Let_def split: sum.splits)

lemma trial_loop_trace:
  "\<exists>evs. trace (fst (trial_loop mcts_trial clock args is s)) = trace s @ evs \<and>
     set (trial_calls evs) \<subseteq> {args} \<and> headers evs = []"
proof (induction "is" arbitrary: s)
  case Nil
  then show ?case by simp
next
  case (Cons i "is")
  obtain s' r where body: "trial_body mcts_trial clock args i s = (s', r)"
    by (cases "trial_body mcts_trial clock args i s")
  from trial_body_trace [of mcts_trial clock args i s] body
  obtain evs where evs: "trace s' = trace s @ evs" "trial_calls evs = [args]" "headers evs = []"
    by auto
  show ?case
  proof (cases r)
    case None
    from Cons.IH [of s'] obtain evs' where
      "trace (fst (trial_loop mcts_trial clock args is s')) = trace s' @ evs'"
      "set (trial_calls evs') \<subseteq> {args}" "headers evs' = []"
      by blast
    then show ?thesis
      using body None evs by (intro exI [of _ "evs @ evs'"]) simp
  next
    case (Some e)
    then show ?thesis
      using body evs by (intro exI [of _ evs]) simp
  qed
qed

lemma trial_range_Inl: "trial_range v = Inl e \<Longrightarrow> e = TypeError"
  by (cases v) auto

lemma trial_range_Inr: "trial_range v = Inr indices \<Longrightarrow> 0 \<notin> set indices"
  by (cases v) auto

lemma run_mcts_cases:
  assumes "cfg = (case config of None \<Rightarrow> map_of d | Some ns \<Rightarrow> ns)"
  shows "(\<exists>e. e \<noteq> ZeroDivisionError \<and>
        run_mcts mcts_trial clock s0 env config fig ax gst d = (s0\<lparr>run_data := []\<rparr>, Some e)) \<or>
     (\<exists>simulations DEPTH num_runs iterations plotting indices.
        cfg ''simulations'' = Some simulations \<and> cfg ''depth'' = Some DEPTH \<and>
        cfg ''trials'' = Some num_runs \<and> cfg ''iterations'' = Some iterations \<and>
        cfg ''plotting'' = Some plotting \<and> trial_range num_runs = Inr indices \<and>
        run_mcts mcts_trial clock s0 env config fig ax gst d =
          trial_loop mcts_trial clock
            (call_args env simulations DEPTH num_runs iterations plotting fig ax gst)
            indices (s0\<lparr>run_data := []\<rparr>))"
  unfolding run_mcts_def Let_def assms [symmetric]
  by (cases "cfg ''simulations''"; cases "cfg ''depth''"; cases "cfg ''trials''";
      cases "cfg ''iterations''"; cases "cfg ''plotting''";
      auto simp: getattr_def call_args_def split: sum.splits dest: trial_range_Inl)

lemma run_mcts_trace:
  assumes "cfg = (case config of None \<Rightarrow> map_of d | Some ns \<Rightarrow> ns)"
  shows "\<exists>evs. trace (fst (run_mcts mcts_trial clock s0 env config fig ax gst d)) = trace s0 @ evs \<and>
     headers evs = [] \<and>
     (\<forall>a\<in>set (trial_calls evs).
        ta_horizon a = 20 \<and> ta_env a = env \<and> ta_fig a = fig \<and> ta_ax a = ax \<and>
        cfg ''iterations'' = Some (ta_iterations a) \<and> cfg ''depth'' = Some (ta_depth a) \<and>
        cfg ''plotting'' = Some (ta_plotting a) \<and>
        cfg ''simulations'' = Some (ta_simulations a) \<and>
        cfg ''trials'' = Some (res_num_iters (ta_results a)) \<and>
        res_plotting (ta_results a) = ta_plotting a \<and>
        res_global_start_time (ta_results a) = gst \<and>
        res_method_name (ta_results a) = ''mcts'')"
proof -
  from run_mcts_cases [OF assms, of mcts_trial clock s0 env fig ax gst]
  show ?thesis
  proof (elim disjE exE conjE)
    fix e
    assume "run_mcts mcts_trial clock s0 env config fig ax gst d = (s0\<lparr>run_data := []\<rparr>, Some e)"
    then show ?thesis by (intro exI [of _ "[]"]) simp
  next
    fix simulations DEPTH num_runs iterations plotting indices
    assume attrs: "cfg ''simulations'' = Some simulations" "cfg ''depth'' = Some DEPTH"
      "cfg ''trials'' = Some num_runs" "cfg ''iterations'' = Some iterations"
      "cfg ''plotting'' = Some plotting"
    assume run: "run_mcts mcts_trial clock s0 env config fig ax gst d =
          trial_loop mcts_trial clock
            (call_args env simulations DEPTH num_runs iterations plotting fig ax gst)
            indices (s0\<lparr>run_data := []\<rparr>)"
    from trial_loop_trace [of mcts_trial clock
        "call_args env simulations DEPTH num_runs iterations plotting fig ax gst"
        indices "s0\<lparr>run_data := []\<rparr>"]
    obtain evs where evs: "trace (fst (trial_loop mcts_trial clock
            (call_args env simulations DEPTH num_runs iterations plotting fig ax gst)
            indices (s0\<lparr>run_data := []\<rparr>))) = trace s0 @ evs"
      "set (trial_calls evs) \<subseteq> {call_args env simulations DEPTH num_runs iterations plotting fig ax gst}"
      "headers evs = []"
      by auto
    show ?thesis
      unfolding run using evs attrs by (intro exI [of _ evs]) auto
  qed
qed

lemma mcts_cases:
  "(\<exists>e. resolve argv args d = Inl e \<and>
        mcts mcts_trial clock argv args env d = (\<lparr>ticks = 0, run_data = [], trace = []\<rparr>, Some e)) \<or>
   (\<exists>ns config. resolve argv args d = Inr (ns, config) \<and>
        mcts mcts_trial clock argv args env d =
          run_mcts mcts_trial clock
            \<lparr>ticks = 1, run_data = [],
             trace = (case config of None \<Rightarrow> [] | Some c \<Rightarrow> [WriteHeaderLog c ''mcts'' (clock 0)])\<rparr>
            (case env of None \<Rightarrow> RFEnv Drone SimpleActions RFState | Some v \<Rightarrow> v)
            (Some ns) None None (Some (clock 0)) d)"
  by (cases "resolve argv args d") (auto simp: mcts_def Let_def)

lemma mcts_completes:
  assumes res: "resolve argv args d = Inr (ns, config)"
    and attrs: "ns ''simulations'' = Some simulations" "ns ''depth'' = Some DEPTH"
      "ns ''trials'' = Some (VInt (int N))" "ns ''iterations'' = Some iterations"
      "ns ''plotting'' = Some plotting"
    and env: "env' = (case env of None \<Rightarrow> RFEnv Drone SimpleActions RFState | Some v \<Rightarrow> v)"
    and args: "targs = call_args env' simulations DEPTH (VInt (int N)) iterations plotting
        None None (Some (clock 0))"
    and ok: "trials_complete mcts_trial targs N out c l"
  shows "mcts mcts_trial clock argv args env d =
     (\<lparr>ticks = 1 + 3 * N, run_data = records clock 1 out N,
       trace = (case config of None \<Rightarrow> [] | Some cp \<Rightarrow> [WriteHeaderLog cp ''mcts'' (clock 0)]) @
          concat (map (\<lambda>i. trial_events targs i (c i) (l i) (records clock 1 out (nat i)))
                    [1..int N])\<rparr>,
      None)"
proof -
  have "mcts mcts_trial clock argv args env d =
      run_mcts mcts_trial clock
        \<lparr>ticks = 1, run_data = [],
         trace = (case config of None \<Rightarrow> [] | Some cp \<Rightarrow> [WriteHeaderLog cp ''mcts'' (clock 0)])\<rparr>
        env' (Some ns) None None (Some (clock 0)) d"
    using res by (simp add: mcts_def Let_def env)
  then show ?thesis
    by (simp add: run_mcts_completes [OF attrs args ok])
qed

lemma engine_completes:
  assumes "\<forall>args i. \<exists>out c l. mcts_trial args i = Inr out \<and> counts out = Some (c, l)"
  shows "\<exists>out c l. trials_complete mcts_trial targs N out c l"
proof -
  from assms have "\<forall>i. \<exists>out c l. mcts_trial targs i = Inr out \<and> counts out = Some (c, l)"
    by blast
  then obtain out c l where "\<forall>i. mcts_trial targs i = Inr (out i) \<and> counts (out i) = Some (c i, l i)"
    by metis
  then show ?thesis
    unfolding trials_complete_def by blast
qed

text \<open>The divisions of the body never divide by zero.\<close>

lemma slice_from1_Inl: "slice_from1 r = Inl e \<Longrightarrow> e \<noteq> ZeroDivisionError"
  by (cases r) auto

lemma last_of_item_Inl: "last_of_item r n = Inl e \<Longrightarrow> e \<noteq> ZeroDivisionError"
proof (cases r)
  case (Seq xs)
  assume "last_of_item r n = Inl e"
  then show ?thesis
    unfolding Seq last_of_item_def
    by (cases "n < length xs"; cases "xs ! n") (auto split: if_splits)
qed (auto simp: last_of_item_def)

lemma truediv_Inl: "truediv v i = Inl e \<Longrightarrow> i \<noteq> 0 \<Longrightarrow> e \<noteq> ZeroDivisionError"
  by (cases v) auto

lemma trial_body_no_zero_division:
  assumes "i \<noteq> 0" and "snd (trial_body mcts_trial clock args i s) = Some ZeroDivisionError"
  shows "mcts_trial args i = Inl ZeroDivisionError"
  using assms
  by (auto simp: trial_body_def Let_def split: sum.splits
      dest: slice_from1_Inl last_of_item_Inl truediv_Inl)

lemma trial_loop_no_zero_division:
  assumes "0 \<notin> set is" and "snd (trial_loop mcts_trial clock args is s) = Some ZeroDivisionError"
  shows "\<exists>i. mcts_trial args i = Inl ZeroDivisionError"
  using assms
proof (induction "is" arbitrary: s)
  case Nil
  then show ?case by simp
next
  case (Cons i "is")
  obtain s' r where body: "trial_body mcts_trial clock args i s = (s', r)"
    by (cases "trial_body mcts_trial clock args i s")
  show ?case
  proof (cases r)
    case None
    then show ?thesis
      using Cons body by simp
  next
    case (Some e)
    then have "snd (trial_body mcts_trial clock args i s) = Some ZeroDivisionError"
      using Cons.prems(2) body by simp
    moreover have "i \<noteq> 0"
      using Cons.prems(1) by auto
    ultimately show ?thesis
      by (blast dest: trial_body_no_zero_division)
  qed
qed

subsection \<open>Resolution\<close>


lemma last_arg_Cons:
  "last_arg ((n, a) # rest) name =
     (case last_arg rest name of Some b \<Rightarrow> Some b | None \<Rightarrow> if n = name then Some a else None)"
  by (simp add: last_arg_def map_add_def split: option.splits)

lemma last_arg_None_iff: "last_arg argv name = None \<longleftrightarrow> name \<notin> set (map fst argv)"
  by (simp add: last_arg_def map_of_eq_None_iff)

lemma consume_optionals_lookup:
  assumes "consume_optionals acts argv ns = Inr ns'"
    and "find (\<lambda>a. act_dest a = name) acts = Some a"
  shows "case last_arg argv name of
           None \<Rightarrow> ns' name = ns name
         | Some arg \<Rightarrow> \<exists>v. get_value (act_type a) arg = Inr v \<and> ns' name = Some v"
  using assms
proof (induction argv arbitrary: ns)
  case Nil
  then show ?case by (simp add: last_arg_def)
next
  case (Cons p rest)
  obtain n arg where p: "p = (n, arg)" by (cases p)
  show ?case
  proof (cases "find (\<lambda>a. act_dest a = n) acts")
    case None
    then have "n \<noteq> name" using Cons.prems(2) by auto
    moreover have "consume_optionals acts rest ns = Inr ns'"
      using Cons.prems(1) None by (simp add: p)
    ultimately show ?thesis
      using Cons.IH [OF _ Cons.prems(2), of ns]
      by (simp add: p last_arg_Cons split: option.splits)
  next
    case (Some a')
    from Cons.prems(1) Some obtain v where
      v: "get_value (act_type a') arg = Inr v"
      and rest: "consume_optionals acts rest (ns(n \<mapsto> v)) = Inr ns'"
      by (auto simp: p split: sum.splits)
    from Cons.IH [OF rest Cons.prems(2)]
    have ih: "case last_arg rest name of
           None \<Rightarrow> ns' name = (ns(n \<mapsto> v)) name
         | Some arg \<Rightarrow> \<exists>v. get_value (act_type a) arg = Inr v \<and> ns' name = Some v" .
    show ?thesis
    proof (cases "n = name")
      case True
      then have "a' = a" using Some Cons.prems(2) by simp
      then show ?thesis
        using ih v True by (simp add: p last_arg_Cons split: option.splits)
    next
      case False
      then show ?thesis
        using ih by (simp add: p last_arg_Cons split: option.splits)
    qed
  qed
qed

lemma convert_defaults_other:
  assumes "convert_defaults acts seen ns = Inr ns'"
    and "name \<in> set seen \<or> name \<notin> act_dest ` set acts"
  shows "ns' name = ns name"
  using assms
proof (induction acts arbitrary: ns)
  case Nil
  then show ?case by simp
next
  case (Cons a acts)
  show ?case
  proof (cases "act_dest a \<in> set seen")
    case True
    then show ?thesis using Cons by auto
  next
    case False
    then have ne: "act_dest a \<noteq> name" using Cons.prems(2) by auto
    show ?thesis
    proof (cases "act_default a")
      case (VStr s)
      with Cons.prems(1) False obtain v where
        "convert_defaults acts seen (ns(act_dest a \<mapsto> v)) = Inr ns'"
        by (auto split: sum.splits)
      from Cons.IH [OF this] Cons.prems(2) ne show ?thesis by auto
    qed (use Cons False in auto)
  qed
qed

lemma convert_defaults_lookup:
  assumes "convert_defaults acts seen ns = Inr ns'"
    and "distinct (map act_dest acts)"
    and "a \<in> set acts" and "act_dest a \<notin> set seen"
  shows "case act_default a of
           VStr s \<Rightarrow> \<exists>v. get_value (act_type a) s = Inr v \<and> ns' (act_dest a) = Some v
         | _ \<Rightarrow> ns' (act_dest a) = ns (act_dest a)"
  using assms
proof (induction acts arbitrary: ns)
  case Nil
  then show ?case by simp
next
  case (Cons b acts)
  show ?case
  proof (cases "a = b")
    case True
    have notin: "act_dest a \<notin> act_dest ` set acts"
      using Cons.prems(2) True by auto
    show ?thesis
    proof (cases "act_default a")
      case (VStr s)
      with Cons.prems(1,4) True obtain v where
        v: "get_value (act_type a) s = Inr v"
        and rest: "convert_defaults acts seen (ns(act_dest a \<mapsto> v)) = Inr ns'"
        by (auto split: sum.splits)
      from convert_defaults_other [OF rest] notin
      have "ns' (act_dest a) = Some v" by simp
      then show ?thesis using v VStr by simp
    next
      case VNone
      with Cons.prems(1,4) True have "convert_defaults acts seen ns = Inr ns'" by simp
      from convert_defaults_other [OF this] notin show ?thesis using VNone by simp
    next
      case (VBool x)
      with Cons.prems(1,4) True have "convert_defaults acts seen ns = Inr ns'" by simp
      from convert_defaults_other [OF this] notin show ?thesis using VBool by simp
    next
      case (VInt x)
      with Cons.prems(1,4) True have "convert_defaults acts seen ns = Inr ns'" by simp
      from convert_defaults_other [OF this] notin show ?thesis using VInt by simp
    next
      case (VFloat x)
      with Cons.prems(1,4) True have "convert_defaults acts seen ns = Inr ns'" by simp
      from convert_defaults_other [OF this] notin show ?thesis using VFloat by simp
    qed
  next
    case False
    then have mem: "a \<in> set acts" using Cons.prems(3) by simp
    have dist: "distinct (map act_dest acts)" using Cons.prems(2) by simp
    have ne: "act_dest b \<noteq> act_dest a" using Cons.prems(2) mem by auto
    obtain ns1 where rest: "convert_defaults acts seen ns1 = Inr ns'"
      and same: "ns1 (act_dest a) = ns (act_dest a)"
      using Cons.prems(1) ne
      by (cases "act_dest b \<in> set seen"; cases "act_default b")
         (auto split: sum.splits)
    from Cons.IH [OF rest dist mem Cons.prems(4)] same show ?thesis
      by (simp split: pyval.splits)
  qed
qed

lemma distinct_flags: "distinct (map fst flags)"
  by (simp add: flags_def)

lemma dests_parser_actions: "map act_dest (parser_actions defaults) = map fst flags"
  by (simp add: parser_actions_def add_argument_def flags_def)

lemma find_parser_actions:
  assumes "(name, ty) \<in> set flags"
  shows "find (\<lambda>a. act_dest a = name) (parser_actions defaults) = Some (add_argument defaults name ty)"
  using assms by (auto simp: parser_actions_def flags_def add_argument_def)

lemma parse_known_args_lookup:
  assumes ok: "parse_known_args defaults (parser_actions defaults) argv = Inr ns"
    and flag: "(name, ty) \<in> set flags"
  shows "\<exists>v. resolved ty (last_arg argv name) (default_of defaults name) = Inr v \<and> ns name = Some v"
proof -
  let ?acts = "parser_actions defaults"
  let ?a = "add_argument defaults name ty"
  have a: "act_dest ?a = name" "act_type ?a = ty" "act_default ?a = default_of defaults name"
    by (simp_all add: add_argument_def default_of_def)
  have mem: "?a \<in> set ?acts"
    using flag by (force simp: parser_actions_def)
  have dist: "distinct (map act_dest ?acts)"
    by (simp add: dests_parser_actions distinct_flags)
  have init: "initial_namespace defaults ?acts name = Some (default_of defaults name)"
    using flag
    by (auto simp: initial_namespace_def parser_actions_def flags_def add_argument_def
        default_of_def map_add_def)
  from ok obtain ns1 where
    c: "consume_optionals ?acts argv (initial_namespace defaults ?acts) = Inr ns1"
    and d: "convert_defaults ?acts (map fst argv) ns1 = Inr ns"
    by (auto simp: parse_known_args_def split: sum.splits)
  from consume_optionals_lookup [OF c find_parser_actions [OF flag]]
  have cl: "case last_arg argv name of
           None \<Rightarrow> ns1 name = Some (default_of defaults name)
         | Some arg \<Rightarrow> \<exists>v. get_value ty arg = Inr v \<and> ns1 name = Some v"
    by (auto simp: a init split: option.splits)
  show ?thesis
  proof (cases "last_arg argv name")
    case None
    then have unseen: "act_dest ?a \<notin> set (map fst argv)"
      by (simp add: last_arg_None_iff a)
    from convert_defaults_lookup [OF d dist mem unseen] cl None
    show ?thesis
      by (auto simp: a resolved_def split: pyval.splits)
  next
    case (Some arg)
    then have "name \<in> set (map fst argv)"
      using last_arg_None_iff [of argv name] by simp
    with convert_defaults_other [OF d, of name] have "ns name = ns1 name"
      by simp
    with cl Some show ?thesis
      by (auto simp: resolved_def)
  qed
qed

lemma resolve_parser:
  "resolve argv args d = Inr (ns, config) \<longleftrightarrow>
     (\<exists>defaults. file_defaults args d = Inr (defaults, config) \<and>
        parse_known_args defaults (parser_actions defaults) argv = Inr ns)"
  by (auto simp: resolve_def split: sum.splits)



lemma read_keys_other:
  assumes "read_keys validate kvs added d = Inr d'"
    and "key \<notin> optionxform ` fst ` set kvs"
  shows "map_of d' key = map_of d key"
  using assms
proof (induction kvs arbitrary: added d)
  case Nil
  then show ?case by simp
next
  case (Cons p kvs)
  obtain k v where p: "p = (k, v)" by (cases p)
  from Cons.prems(1) have
    rest: "read_keys validate kvs (optionxform k # added)
                 (AList.update (optionxform k) (py_str v) d) = Inr d'"
    by (auto simp: p Let_def split: if_splits)
  from Cons.IH [OF rest] Cons.prems(2) show ?case
    by (simp add: p update_conv')
qed



lemma interpolate_all_Inr: "interpolate_all d = Inr d' \<Longrightarrow> d' = d"
  by (induction d arbitrary: d') (auto simp: interpolate_def split: if_splits sum.splits)

lemma read_dict_defaults: "read_dict cp secs = Inr cp' \<Longrightarrow> cp_defaults cp' = cp_defaults cp"
  by (induction secs arbitrary: cp) (auto split: sum.splits)



lemma read_dict_no_section:
  assumes "read_dict cp secs = Inr cp'" and "map_of (cp_sections cp) n = None"
    and "map_of secs n = None"
  shows "map_of (cp_sections cp') n = None"
  using assms
  by (induction secs arbitrary: cp) (auto split: sum.splits if_splits simp: map_add_def)

lemma optionxform_plotting [simp]: "optionxform ''plotting'' = ''plotting''"
  by (simp add: optionxform_def lower_def lower_char_def)

lemma file_defaults_SomeD:
  assumes "file_defaults (Some secs) d = Inr (defaults, config)"
  shows "\<exists>d0 cp sd b v.
     read_keys False d [] [] = Inr d0 \<and>
     read_dict \<lparr>cp_defaults = d0, cp_sections = []\<rparr> secs = Inr cp \<and>
     config = Some cp \<and>
     map_of (cp_sections cp) ''Defaults'' = Some sd \<and>
     map_of (dict_update d0 sd) ''plotting'' = Some v \<and>
     map_of BOOLEAN_STATES (lower v) = Some b \<and>
     defaults = AList.update ''plotting'' (VBool b)
                  (map (\<lambda>(k, v). (k, VStr v)) (dict_update d0 sd))"
proof -
  from assms obtain cp0 cp its b where
    c0: "ConfigParser d = Inr cp0"
    and rd: "read_dict cp0 secs = Inr cp"
    and its: "items cp ''Defaults'' = Inr its"
    and gb: "getboolean cp ''Defaults'' ''plotting'' = Inr b"
    and res: "defaults = AList.update ''plotting'' (VBool b) (map (\<lambda>(k, v). (k, VStr v)) its)"
      "config = Some cp"
    by (auto simp: file_defaults_def split: sum.splits)
  from c0 obtain d0 where d0: "read_keys False d [] [] = Inr d0"
    and cp0: "cp0 = \<lparr>cp_defaults = d0, cp_sections = []\<rparr>"
    by (auto simp: ConfigParser_def split: sum.splits)
  have dflt: "cp_defaults cp = d0"
    using read_dict_defaults [OF rd] by (simp add: cp0)
  from its obtain sd where sd: "map_of (cp_sections cp) ''Defaults'' = Some sd"
    and its': "interpolate_all (dict_update d0 sd) = Inr its"
    by (auto simp: items_def unify_values_def dflt split: option.splits sum.splits)
  have its_eq: "its = dict_update d0 sd"
    using interpolate_all_Inr [OF its'] .
  from gb sd obtain v where "map_of (dict_update d0 sd) ''plotting'' = Some v"
    and "map_of BOOLEAN_STATES (lower v) = Some b"
    by (auto simp: getboolean_def get_def unify_values_def dflt interpolate_def
        split: option.splits sum.splits if_splits)
  then show ?thesis
    using d0 rd res sd its_eq unfolding cp0 by blast
qed

lemma file_defaults_values:
  assumes "file_defaults (Some secs) d = Inr (defaults, config)"
    and "map_of defaults name = Some v"
  shows "if name = ''plotting'' then \<exists>b. v = VBool b else \<exists>s. v = VStr s"
proof -
  from file_defaults_SomeD [OF assms(1)] obtain merged b where
    "defaults = AList.update ''plotting'' (VBool b) (map (\<lambda>(k, v). (k, VStr v)) merged)"
    by blast
  with assms(2) show ?thesis
    by (auto simp: update_conv' map_of_map split: if_splits)
qed









text \<open>The order of the layers: the argument of the last occurrence of a flag on the
  command line wins; without one, the flag resolves to the default that the file
  configuration (when there is one) or the built-in defaults give to its action.\<close>

lemma resolve_precedence:
  assumes "resolve argv args d = Inr (ns, config)" and "(name, ty) \<in> set flags"
  shows "\<exists>defaults v. file_defaults args d = Inr (defaults, config) \<and>
     resolved ty (last_arg argv name) (default_of defaults name) = Inr v \<and> ns name = Some v"
proof -
  from assms(1) obtain defaults where
    fd: "file_defaults args d = Inr (defaults, config)"
    and pk: "parse_known_args defaults (parser_actions defaults) argv = Inr ns"
    unfolding resolve_parser by blast
  from parse_known_args_lookup [OF pk assms(2)] fd show ?thesis
    by blast
qed

subsection \<open>The scenario\<close>

lemma scenario_attrs:
  "map_of scenario_defaults ''simulations'' = Some (VInt 10)"
  "map_of scenario_defaults ''depth'' = Some (VInt 5)"
  "map_of scenario_defaults ''trials'' = Some (VInt (int 3))"
  "map_of scenario_defaults ''iterations'' = Some (VInt 50)"
  "map_of scenario_defaults ''plotting'' = Some (VBool False)"
  by (simp_all add: scenario_defaults_def)

lemma counts_steady_outcome: "counts (steady_outcome i) = Some (real_of_int i, 1)"
  by (simp add: counts_def steady_outcome_def last_of_item_def)

lemma steady_trial_completes:
  "\<forall>i\<in>{1..int n}. steady_trial args i = Inr (steady_outcome i) \<and>
     counts (steady_outcome i) = Some (real_of_int i, 1)"
  by (simp add: steady_trial_def counts_steady_outcome)

lemma upto_1_3: "[1..int 3] = [1, 2, 3]"
  by (simp add: upto_rec1)

lemma upto_numerals: "[1..3] = [1, 2, 3::int]" "[1..1] = [1::int]"
  by (simp_all add: upto_rec1)

lemma scenario_resolve_defaults:
  "(case resolve [] None scenario_defaults of
      Inl e \<Rightarrow> False
    | Inr (ns, config) \<Rightarrow>
        config = None \<and>
        map ns [''trials'', ''simulations'', ''depth'', ''iterations'', ''plotting'',
                ''lambda_arg'', ''collision'', ''loss''] =
        [Some (VInt 3), Some (VInt 10), Some (VInt 5), Some (VInt 50), Some (VBool False),
         Some (VFloat (Dec 8 1)), Some (VFloat (Dec (- 2) 0)), Some (VFloat (Dec (- 2) 0))])"
  by code_simp

lemma scenario_resolve_cli:
  "(case resolve [(''trials'', ''1''), (''plotting'', ''true'')] None scenario_defaults of
      Inl e \<Rightarrow> False
    | Inr (ns, config) \<Rightarrow>
        config = None \<and>
        map ns [''trials'', ''simulations'', ''depth'', ''iterations'', ''plotting'',
                ''lambda_arg'', ''collision'', ''loss''] =
        [Some (VInt 1), Some (VInt 10), Some (VInt 5), Some (VInt 50), Some (VBool True),
         Some (VFloat (Dec 8 1)), Some (VFloat (Dec (- 2) 0)), Some (VFloat (Dec (- 2) 0))])"
  by code_simp

subsection \<open>The run-record sequence\<close>

text \<open>
  Claim C2. When the configuration asks for \<open>N\<close> trials and each of them completes,
  \<^verbatim>\<open>run_mcts\<close> returns normally with exactly \<open>N\<close> records in \<^verbatim>\<open>run_data\<close>; the record at
  position \<open>k\<close> is the one built from the outcome of trial \<open>k + 1\<close>, so the records are
  in trial order; and the sequence after the first \<open>j\<close> trials is the first \<open>j\<close> records
  of the final one, so no record is moved, dropped or changed after it was appended.
  The statement holds for every \<open>N\<close>, in particular for \<open>N \<ge> 1\<close>.
\<close>

theorem run_mcts_record_sequence:
  assumes "ns ''simulations'' = Some simulations" and "ns ''depth'' = Some DEPTH"
    and "ns ''trials'' = Some (VInt (int N))" and "ns ''iterations'' = Some iterations"
    and "ns ''plotting'' = Some plotting"
    and "args = call_args env simulations DEPTH (VInt (int N)) iterations plotting fig ax gst"
    and "\<forall>i\<in>{1..int N}. mcts_trial args i = Inr (out i) \<and> counts (out i) = Some (c i, l i)"
  shows "\<exists>s. run_mcts mcts_trial clock s0 env (Some ns) fig ax gst d = (s, None) \<and>
     length (run_data s) = N \<and>
     (\<forall>k<N. run_data s ! k = trial_record clock (ticks s0 + 3 * k) (out (int k + 1))) \<and>
     (\<forall>j\<le>N. run_data (fst (trial_loop mcts_trial clock args [1..int j] (s0\<lparr>run_data := []\<rparr>))) =
        take j (run_data s))"
proof -
  have ok: "trials_complete mcts_trial args N out c l"
    using assms(7) by (simp add: trials_complete_def)
  have part: "trials_complete mcts_trial args j out c l" if "j \<le> N" for j
    using ok that by (rule trials_complete_le)
  show ?thesis
    unfolding run_mcts_completes [OF assms(1-6) ok]
    by (simp add: nth_records take_records trial_loop_completes [OF part])
qed

theorem run_mcts_record_sequence_witness:
  "(let r = run_mcts steady_trial tick_clock \<lparr>ticks = 1, run_data = [], trace = []\<rparr>
              (RFEnv Drone SimpleActions RFState) (Some (map_of scenario_defaults)) None None
              (Some 100) scenario_defaults
    in snd r = None \<and> length (run_data (fst r)) = 3 \<and>
       run_data (fst r) ! 2 =
         [Stamp 109, Elapsed 1, Opaque 1, Opaque 2, Opaque 3, Opaque 4, Opaque 5,
          Seq [Num 0, Num 3], Seq [Num 1]])"
proof -
  from run_mcts_record_sequence [where mcts_trial = steady_trial and out = steady_outcome
      and c = real_of_int and l = "\<lambda>i. 1" and clock = tick_clock
      and ?s0.0 = "\<lparr>ticks = 1, run_data = [], trace = []\<rparr>" and d = scenario_defaults
      and env = "RFEnv Drone SimpleActions RFState" and fig = None and ax = None
      and gst = "Some 100",
      OF scenario_attrs refl steady_trial_completes]
  obtain s where run: "run_mcts steady_trial tick_clock \<lparr>ticks = 1, run_data = [], trace = []\<rparr>
              (RFEnv Drone SimpleActions RFState) (Some (map_of scenario_defaults)) None None
              (Some 100) scenario_defaults = (s, None)"
    and len: "length (run_data s) = 3"
    and nth: "\<forall>k<3. run_data s ! k =
        trial_record tick_clock (ticks \<lparr>ticks = 1, run_data = [], trace = []\<rparr> + 3 * k)
          (steady_outcome (int k + 1))"
    by blast
  from nth have "run_data s ! 2 = trial_record tick_clock (1 + 3 * 2) (steady_outcome 3)"
    by simp
  then show ?thesis
    using run len by (simp add: trial_record_def steady_outcome_def tick_clock_def)
qed

subsection \<open>Persistence after every trial\<close>

text \<open>
  Claim C3. In a run of \<open>N\<close> completed trials the trace is the sequence of the blocks
  of trials \<open>1..N\<close>: each block starts with the call of the trial engine and ends with
  \<^verbatim>\<open>write_dataframe\<close> (and \<^verbatim>\<open>save_gif\<close> when plotting), given the records up to and
  including that trial. So \<^verbatim>\<open>write_dataframe\<close> is called exactly \<open>N\<close> times, once per trial,
  after the append and before the next trial starts; call \<open>j\<close> gets the first
  \<open>j + 1\<close> records, and the argument of each call is a prefix of the argument of the
  next.
\<close>

theorem run_mcts_persistence:
  assumes "ns ''simulations'' = Some simulations" and "ns ''depth'' = Some DEPTH"
    and "ns ''trials'' = Some (VInt (int N))" and "ns ''iterations'' = Some iterations"
    and "ns ''plotting'' = Some plotting"
    and "args = call_args env simulations DEPTH (VInt (int N)) iterations plotting fig ax gst"
    and "\<forall>i\<in>{1..int N}. mcts_trial args i = Inr (out i) \<and> counts (out i) = Some (c i, l i)"
  shows "\<exists>s evs. run_mcts mcts_trial clock s0 env (Some ns) fig ax gst d = (s, None) \<and>
     trace s = trace s0 @ evs \<and>
     evs = concat (map (\<lambda>i. trial_events args i (c i) (l i) (take (nat i) (run_data s))) [1..int N]) \<and>
     length (writes evs) = N \<and>
     (\<forall>j<N. writes evs ! j = take (Suc j) (run_data s)) \<and>
     (\<forall>j. Suc j < N \<longrightarrow> prefix (writes evs ! j) (writes evs ! Suc j))"
proof -
  have ok: "trials_complete mcts_trial args N out c l"
    using assms(7) by (simp add: trials_complete_def)
  let ?rd = "\<lambda>i. records clock (ticks s0) out (nat i)"
  let ?evs = "concat (map (\<lambda>i. trial_events args i (c i) (l i) (?rd i)) [1..int N])"
  have w: "writes ?evs = map ?rd [1..int N]"
    by (rule writes_concat_blocks)
  have nth: "writes ?evs ! j = records clock (ticks s0) out (Suc j)" if "j < N" for j
    using that unfolding w by (simp add: nat_add_distrib)
  have pre: "prefix (writes ?evs ! j) (writes ?evs ! Suc j)" if "Suc j < N" for j
    using that by (simp add: nth prefix_records)
  have len: "length (writes ?evs) = N"
    unfolding w by simp
  show ?thesis
    unfolding run_mcts_completes [OF assms(1-6) ok]
    using len nth pre by (simp add: blocks_take take_records)
qed

theorem run_mcts_persistence_witness:
  "(let r = run_mcts steady_trial tick_clock \<lparr>ticks = 1, run_data = [], trace = []\<rparr>
              (RFEnv Drone SimpleActions RFState) (Some (map_of scenario_defaults)) None None
              (Some 100) scenario_defaults
    in snd r = None \<and> length (writes (trace (fst r))) = 3 \<and>
       length (writes (trace (fst r)) ! 0) = 1 \<and>
       length (writes (trace (fst r)) ! 1) = 2 \<and>
       length (writes (trace (fst r)) ! 2) = 3 \<and>
       prefix (writes (trace (fst r)) ! 1) (writes (trace (fst r)) ! 2))"
proof -
  from run_mcts_persistence [where mcts_trial = steady_trial and out = steady_outcome
      and c = real_of_int and l = "\<lambda>i. 1" and clock = tick_clock
      and ?s0.0 = "\<lparr>ticks = 1, run_data = [], trace = []\<rparr>" and d = scenario_defaults
      and env = "RFEnv Drone SimpleActions RFState" and fig = None and ax = None
      and gst = "Some 100",
      OF scenario_attrs refl steady_trial_completes]
  obtain s evs where run: "run_mcts steady_trial tick_clock \<lparr>ticks = 1, run_data = [], trace = []\<rparr>
              (RFEnv Drone SimpleActions RFState) (Some (map_of scenario_defaults)) None None
              (Some 100) scenario_defaults = (s, None)"
    and tr: "trace s = trace \<lparr>ticks = 1, run_data = [], trace = []\<rparr> @ evs"
    and len: "length (writes evs) = 3"
    and nth: "\<forall>j<3. writes evs ! j = take (Suc j) (run_data s)"
    and pre: "\<forall>j. Suc j < 3 \<longrightarrow> prefix (writes evs ! j) (writes evs ! Suc j)"
    by blast
  have "trials_complete steady_trial
      (call_args (RFEnv Drone SimpleActions RFState) (VInt 10) (VInt 5) (VInt (int 3)) (VInt 50)
         (VBool False) None None (Some 100))
      3 steady_outcome real_of_int (\<lambda>i. 1)"
    by (simp add: trials_complete_def steady_trial_def counts_steady_outcome)
  from run_mcts_completes [OF scenario_attrs refl this, of tick_clock
      "\<lparr>ticks = 1, run_data = [], trace = []\<rparr>" scenario_defaults] run
  have rd: "length (run_data s) = 3"
    by auto
  have "prefix (writes evs ! 1) (writes evs ! 2)"
    using pre [rule_format, of 1] by (simp add: numeral_2_eq_2)
  moreover have "length (writes evs ! 0) = 1" "length (writes evs ! 1) = 2"
      "length (writes evs ! 2) = 3"
    using nth rd by (simp_all add: numeral_2_eq_2)
  ultimately show ?thesis
    using run tr len by simp
qed

subsection \<open>Cumulative rates\<close>

text \<open>
  Claim C4. In a run of \<open>N\<close> completed trials, the two rates printed after trial \<open>i\<close>
  are the cumulative collision count and the cumulative loss count of the outcome of
  trial \<open>i\<close>, each divided by \<open>i\<close>, for \<open>i = 1..N\<close> in this order. The index is never
  \<open>0\<close>: with any trial engine that does not raise \<^verbatim>\<open>ZeroDivisionError\<close> itself, the run
  does not end in one.
\<close>

theorem run_mcts_rates:
  assumes "ns ''simulations'' = Some simulations" and "ns ''depth'' = Some DEPTH"
    and "ns ''trials'' = Some (VInt (int N))" and "ns ''iterations'' = Some iterations"
    and "ns ''plotting'' = Some plotting"
    and "args = call_args env simulations DEPTH (VInt (int N)) iterations plotting fig ax gst"
    and "\<forall>i\<in>{1..int N}. mcts_trial args i = Inr (out i) \<and> counts (out i) = Some (c i, l i)"
  shows "\<exists>s evs. run_mcts mcts_trial clock s0 env (Some ns) fig ax gst d = (s, None) \<and>
     trace s = trace s0 @ evs \<and>
     rate_lines evs =
       concat (map (\<lambda>i. [CollisionRate (c i / real_of_int i), LossRate (l i / real_of_int i)])
                 [1..int N]) \<and>
     0 \<notin> set [1..int N] \<and>
     (\<forall>engine. (\<forall>i. engine args i \<noteq> Inl ZeroDivisionError) \<longrightarrow>
        snd (run_mcts engine clock s0 env (Some ns) fig ax gst d) \<noteq> Some ZeroDivisionError)"
proof -
  have ok: "trials_complete mcts_trial args N out c l"
    using assms(7) by (simp add: trials_complete_def)
  have nz: "snd (run_mcts engine clock s0 env (Some ns) fig ax gst d) \<noteq> Some ZeroDivisionError"
    if "\<forall>i. engine args i \<noteq> Inl ZeroDivisionError" for engine
    unfolding run_mcts_loop [OF assms(1-5)] assms(6) [symmetric]
    using trial_loop_no_zero_division [of "[1..int N]" engine clock args "s0\<lparr>run_data := []\<rparr>"] that
    by auto
  show ?thesis
    unfolding run_mcts_completes [OF assms(1-6) ok]
    using nz by (simp add: rate_lines_concat_blocks)
qed

theorem run_mcts_rates_witness:
  "(let r = run_mcts steady_trial tick_clock \<lparr>ticks = 1, run_data = [], trace = []\<rparr>
              (RFEnv Drone SimpleActions RFState) (Some (map_of scenario_defaults)) None None
              (Some 100) scenario_defaults
    in snd r = None \<and>
       rate_lines (trace (fst r)) =
         [CollisionRate 1, LossRate 1, CollisionRate 1, LossRate (1 / 2),
          CollisionRate 1, LossRate (1 / 3)])"
proof -
  from run_mcts_rates [where mcts_trial = steady_trial and out = steady_outcome
      and c = real_of_int and l = "\<lambda>i. 1" and clock = tick_clock
      and ?s0.0 = "\<lparr>ticks = 1, run_data = [], trace = []\<rparr>" and d = scenario_defaults
      and env = "RFEnv Drone SimpleActions RFState" and fig = None and ax = None
      and gst = "Some 100",
      OF scenario_attrs refl steady_trial_completes]
  obtain s evs where "run_mcts steady_trial tick_clock \<lparr>ticks = 1, run_data = [], trace = []\<rparr>
              (RFEnv Drone SimpleActions RFState) (Some (map_of scenario_defaults)) None None
              (Some 100) scenario_defaults = (s, None)"
    and "trace s = trace \<lparr>ticks = 1, run_data = [], trace = []\<rparr> @ evs"
    and "rate_lines evs =
       concat (map (\<lambda>i. [CollisionRate (real_of_int i / real_of_int i), LossRate (1 / real_of_int i)])
                 [1..int 3])"
    by blast
  then show ?thesis
    unfolding upto_1_3 by simp
qed

subsection \<open>A trial that raises\<close>

text \<open>
  Claim C5. When trials \<open>1..k\<close> complete and the trial engine raises \<open>e\<close> in trial
  \<open>k + 1\<close> of \<open>N\<close>, the run ends with \<open>e\<close>: the engine was called \<open>k + 1\<close> times and
  its failing call is the last thing that happened, so nothing is retried or skipped
  and no later trial runs; \<^verbatim>\<open>write_dataframe\<close> was called exactly \<open>k\<close> times, and the
  last of these calls (when there is one) got the records of trials \<open>1..k\<close>, which is
  also what \<^verbatim>\<open>run_data\<close> holds.
\<close>

theorem run_mcts_trial_raises:
  assumes "ns ''simulations'' = Some simulations" and "ns ''depth'' = Some DEPTH"
    and "ns ''trials'' = Some (VInt (int N))" and "ns ''iterations'' = Some iterations"
    and "ns ''plotting'' = Some plotting"
    and "args = call_args env simulations DEPTH (VInt (int N)) iterations plotting fig ax gst"
    and "k < N"
    and "\<forall>i\<in>{1..int k}. mcts_trial args i = Inr (out i) \<and> counts (out i) = Some (c i, l i)"
    and "mcts_trial args (int k + 1) = Inl e"
  shows "\<exists>s evs. run_mcts mcts_trial clock s0 env (Some ns) fig ax gst d = (s, Some e) \<and>
     trace s = trace s0 @ evs \<and>
     length (trial_calls evs) = k + 1 \<and>
     last evs = MctsTrial args \<and>
     length (writes evs) = k \<and>
     (0 < k \<longrightarrow> last (writes evs) = run_data s) \<and>
     run_data s = map (\<lambda>j. trial_record clock (ticks s0 + 3 * j) (out (int j + 1))) [0..<k]"
proof -
  have ok: "trials_complete mcts_trial args k out c l"
    using assms(8) by (simp add: trials_complete_def)
  let ?rd = "\<lambda>i. records clock (ticks s0) out (nat i)"
  let ?blocks = "concat (map (\<lambda>i. trial_events args i (c i) (l i) (?rd i)) [1..int k])"
  have w: "writes ?blocks = map ?rd [1..int k]"
    by (rule writes_concat_blocks)
  have calls: "trial_calls ?blocks = replicate (length [1..int k]) args"
    by (rule trial_calls_concat_blocks)
  have lastw: "last (writes ?blocks) = records clock (ticks s0) out k" if "0 < k"
    using that unfolding w by (simp add: last_map upto_rec2)
  have body: "trial_body mcts_trial clock args (int k + 1) s' =
     (s'\<lparr>ticks := ticks s' + 1, trace := trace s' @ [MctsTrial args]\<rparr>, Some e)" for s'
    using assms(9) by (rule trial_body_raises)
  have run: "run_mcts mcts_trial clock s0 env (Some ns) fig ax gst d =
     (s0\<lparr>ticks := ticks s0 + 3 * k + 1, run_data := records clock (ticks s0) out k,
         trace := trace s0 @ ?blocks @ [MctsTrial args]\<rparr>, Some e)"
    unfolding run_mcts_loop [OF assms(1-5)] assms(6) [symmetric]
      upto_split_raise [OF assms(7)] trial_loop_append trial_loop_completes [OF ok]
    by (simp add: body)
  have lenc: "length (trial_calls ?blocks) = k"
    unfolding calls by simp
  have lenw: "length (writes ?blocks) = k"
    unfolding w by simp
  have rd: "records clock (ticks s0) out k =
      map (\<lambda>j. trial_record clock (ticks s0 + 3 * j) (out (int j + 1))) [0..<k]"
    by (rule records_eq_map)
  show ?thesis
    unfolding run
    apply (intro exI [of _ "?blocks @ [MctsTrial args]"] exI conjI)
          apply (rule refl)
         apply simp
        apply (simp add: lenc)
       apply simp
      apply (simp add: lenw)
     apply (simp add: lastw)
    apply (simp add: rd)
    done
qed

theorem run_mcts_trial_raises_witness:
  "(let r = run_mcts failing_trial tick_clock \<lparr>ticks = 1, run_data = [], trace = []\<rparr>
              (RFEnv Drone SimpleActions RFState) (Some (map_of scenario_defaults)) None None
              (Some 100) scenario_defaults
    in snd r = Some (TrialExecutionError 1) \<and>
       length (trial_calls (trace (fst r))) = 2 \<and>
       length (writes (trace (fst r))) = 1 \<and>
       last (writes (trace (fst r))) = run_data (fst r) \<and>
       length (run_data (fst r)) = 1)"
proof -
  have before: "\<forall>i\<in>{1..int 1}. failing_trial args i = Inr (steady_outcome i) \<and>
      counts (steady_outcome i) = Some (real_of_int i, 1)" for args
    by (simp add: failing_trial_def counts_steady_outcome)
  have raise: "failing_trial args (int 1 + 1) = Inl (TrialExecutionError 1)" for args
    by (simp add: failing_trial_def)
  have less: "(1::nat) < 3"
    by simp
  from run_mcts_trial_raises [where mcts_trial = failing_trial and out = steady_outcome
      and c = real_of_int and l = "\<lambda>i. 1" and clock = tick_clock
      and ?s0.0 = "\<lparr>ticks = 1, run_data = [], trace = []\<rparr>" and d = scenario_defaults
      and env = "RFEnv Drone SimpleActions RFState" and fig = None and ax = None
      and gst = "Some 100",
      OF scenario_attrs refl less before raise]
  have "\<exists>s evs. run_mcts failing_trial tick_clock \<lparr>ticks = 1, run_data = [], trace = []\<rparr>
              (RFEnv Drone SimpleActions RFState) (Some (map_of scenario_defaults)) None None
              (Some 100) scenario_defaults = (s, Some (TrialExecutionError 1)) \<and>
      trace s = evs \<and> length (trial_calls evs) = 2 \<and> length (writes evs) = 1 \<and>
      last (writes evs) = run_data s \<and> length (run_data s) = 1"
    by auto
  then show ?thesis
    by auto
qed

subsection \<open>The arguments of the trial engine\<close>

text \<open>
  Claim C10. Every call of the trial engine that \<^verbatim>\<open>run_mcts\<close> makes has the same
  arguments: the environment, figure and axis handles it was given, the attributes
  \<^verbatim>\<open>iterations\<close>, \<^verbatim>\<open>depth\<close>, \<^verbatim>\<open>plotting\<close> and \<^verbatim>\<open>simulations\<close> of its configuration, the
  results handle built from them, and the horizon \<open>20\<close>. The horizon is \<open>20\<close> in every
  call a run of the entry point makes, whatever the command line, the file
  configuration and the built-in defaults are.
\<close>

theorem run_mcts_trial_arguments:
  "(let cfg = (case config of None \<Rightarrow> map_of d | Some ns \<Rightarrow> ns)
    in \<exists>evs. trace (fst (run_mcts mcts_trial clock s0 env config fig ax gst d)) = trace s0 @ evs \<and>
         (\<forall>a\<in>set (trial_calls evs).
            ta_horizon a = 20 \<and> ta_env a = env \<and> ta_fig a = fig \<and> ta_ax a = ax \<and>
            cfg ''iterations'' = Some (ta_iterations a) \<and> cfg ''depth'' = Some (ta_depth a) \<and>
            cfg ''plotting'' = Some (ta_plotting a) \<and>
            cfg ''simulations'' = Some (ta_simulations a) \<and>
            cfg ''trials'' = Some (res_num_iters (ta_results a)) \<and>
            res_plotting (ta_results a) = ta_plotting a \<and>
            res_global_start_time (ta_results a) = gst \<and>
            res_method_name (ta_results a) = ''mcts'')) \<and>
   (\<forall>a\<in>set (trial_calls (trace (fst (mcts mcts_trial clock argv args env0 mcts_defaults)))).
      ta_horizon a = 20)"
proof -
  have "\<forall>a\<in>set (trial_calls (trace (fst (mcts mcts_trial clock argv args env0 mcts_defaults)))).
      ta_horizon a = 20"
    using mcts_cases [of argv args mcts_defaults mcts_trial clock env0]
  proof (elim disjE exE conjE)
    fix e
    assume "mcts mcts_trial clock argv args env0 mcts_defaults =
        (\<lparr>ticks = 0, run_data = [], trace = []\<rparr>, Some e)"
    then show ?thesis by simp
  next
    fix ns config
    assume run: "mcts mcts_trial clock argv args env0 mcts_defaults =
          run_mcts mcts_trial clock
            \<lparr>ticks = 1, run_data = [],
             trace = (case config of None \<Rightarrow> [] | Some c \<Rightarrow> [WriteHeaderLog c ''mcts'' (clock 0)])\<rparr>
            (case env0 of None \<Rightarrow> RFEnv Drone SimpleActions RFState | Some v \<Rightarrow> v)
            (Some ns) None None (Some (clock 0)) mcts_defaults"
    show ?thesis
      unfolding run
      using run_mcts_trace [where config = "Some ns" and cfg = ns and d = mcts_defaults
          and mcts_trial = mcts_trial and clock = clock and fig = None and ax = None
          and gst = "Some (clock 0)"
          and env = "(case env0 of None \<Rightarrow> RFEnv Drone SimpleActions RFState | Some v \<Rightarrow> v)"
          and ?s0.0 = "\<lparr>ticks = 1, run_data = [],
             trace = (case config of None \<Rightarrow> [] | Some c \<Rightarrow> [WriteHeaderLog c ''mcts'' (clock 0)])\<rparr>"]
      by (auto split: option.splits)
  qed
  moreover from run_mcts_trace [OF refl, of mcts_trial clock s0 env config fig ax gst d]
  obtain evs where "trace (fst (run_mcts mcts_trial clock s0 env config fig ax gst d)) = trace s0 @ evs"
    and "\<forall>a\<in>set (trial_calls evs).
        ta_horizon a = 20 \<and> ta_env a = env \<and> ta_fig a = fig \<and> ta_ax a = ax \<and>
        (case config of None \<Rightarrow> map_of d | Some ns \<Rightarrow> ns) ''iterations'' = Some (ta_iterations a) \<and>
        (case config of None \<Rightarrow> map_of d | Some ns \<Rightarrow> ns) ''depth'' = Some (ta_depth a) \<and>
        (case config of None \<Rightarrow> map_of d | Some ns \<Rightarrow> ns) ''plotting'' = Some (ta_plotting a) \<and>
        (case config of None \<Rightarrow> map_of d | Some ns \<Rightarrow> ns) ''simulations'' = Some (ta_simulations a) \<and>
        (case config of None \<Rightarrow> map_of d | Some ns \<Rightarrow> ns) ''trials'' = Some (res_num_iters (ta_results a)) \<and>
        res_plotting (ta_results a) = ta_plotting a \<and>
        res_global_start_time (ta_results a) = gst \<and>
        res_method_name (ta_results a) = ''mcts''"
    by blast
  ultimately show ?thesis
    unfolding Let_def by blast
qed

theorem run_mcts_trial_arguments_witness:
  "map ta_horizon (trial_calls (trace (fst
      (mcts steady_trial tick_clock [] None None scenario_defaults)))) = [20, 20, 20]"
proof -
  let ?calls = "trial_calls (trace (fst (mcts steady_trial tick_clock [] None None scenario_defaults)))"
  have len: "length ?calls = 3"
    by code_simp
  from run_mcts_trial_arguments [where mcts_trial = steady_trial and clock = tick_clock
      and argv = "[]" and args = None and ?env0.0 = None and mcts_defaults = scenario_defaults]
  have "\<forall>a\<in>set ?calls. ta_horizon a = 20"
    by simp
  then have "\<forall>i<3. ta_horizon (?calls ! i) = 20"
    using len by simp
  then show ?thesis
    using len by (simp add: list_eq_iff_nth_eq less_Suc_eq numeral_3_eq_3)
qed

subsection \<open>The scenario of the specification\<close>

text \<open>
  Claim C8. With the built-in defaults of the scenario, no file configuration and an
  empty command line, the entry point resolves the eight fields to the eight default
  values; with a trial engine that completes every trial, three trials run,
  \<^verbatim>\<open>write_dataframe\<close> is called three times, with 1, 2 and 3 records, and \<^verbatim>\<open>save_gif\<close> is
  never called. With the command line \<^verbatim>\<open>--trials 1 --plotting true\<close>, \<^verbatim>\<open>trials\<close> resolves
  to 1 and \<^verbatim>\<open>plotting\<close> to \<^verbatim>\<open>True\<close>, one trial runs, \<^verbatim>\<open>write_dataframe\<close> is called once
  with one record, and \<^verbatim>\<open>save_gif\<close> is called once, with trial index 1.
\<close>

theorem scenario_runs:
  assumes "\<forall>args i. \<exists>out c l. mcts_trial args i = Inr out \<and> counts out = Some (c, l)"
  shows "(case resolve [] None scenario_defaults of
      Inl e \<Rightarrow> False
    | Inr (ns, config) \<Rightarrow>
        map ns [''trials'', ''simulations'', ''depth'', ''iterations'', ''plotting'',
                ''lambda_arg'', ''collision'', ''loss''] =
        [Some (VInt 3), Some (VInt 10), Some (VInt 5), Some (VInt 50), Some (VBool False),
         Some (VFloat (Dec 8 1)), Some (VFloat (Dec (- 2) 0)), Some (VFloat (Dec (- 2) 0))]) \<and>
   (let r = mcts mcts_trial clock [] None env scenario_defaults
    in snd r = None \<and> length (trial_calls (trace (fst r))) = 3 \<and>
       map length (writes (trace (fst r))) = [1, 2, 3] \<and> gifs (trace (fst r)) = []) \<and>
   (case resolve [(''trials'', ''1''), (''plotting'', ''true'')] None scenario_defaults of
      Inl e \<Rightarrow> False
    | Inr (ns, config) \<Rightarrow> ns ''trials'' = Some (VInt 1) \<and> ns ''plotting'' = Some (VBool True)) \<and>
   (let r = mcts mcts_trial clock [(''trials'', ''1''), (''plotting'', ''true'')] None env
              scenario_defaults
    in snd r = None \<and> length (trial_calls (trace (fst r))) = 1 \<and>
       map length (writes (trace (fst r))) = [1] \<and> gifs (trace (fst r)) = [1])"
proof -
  let ?env = "(case env of None \<Rightarrow> RFEnv Drone SimpleActions RFState | Some v \<Rightarrow> v)"
  from scenario_resolve_defaults obtain ns where
    res: "resolve [] None scenario_defaults = Inr (ns, None)"
    and attrs: "ns ''simulations'' = Some (VInt 10)" "ns ''depth'' = Some (VInt 5)"
      "ns ''trials'' = Some (VInt (int 3))" "ns ''iterations'' = Some (VInt 50)"
      "ns ''plotting'' = Some (VBool False)"
    by (auto split: sum.splits)
  let ?targs = "call_args ?env (VInt 10) (VInt 5) (VInt (int 3)) (VInt 50) (VBool False)
      None None (Some (clock 0))"
  from engine_completes [OF assms] obtain out c l where
    ok: "trials_complete mcts_trial ?targs 3 out c l"
    by blast
  have first: "(let r = mcts mcts_trial clock [] None env scenario_defaults
    in snd r = None \<and> length (trial_calls (trace (fst r))) = 3 \<and>
       map length (writes (trace (fst r))) = [1, 2, 3] \<and> gifs (trace (fst r)) = [])"
    unfolding mcts_completes [where clock = clock and env = env, OF res attrs refl refl ok] Let_def
    by (simp add: writes_concat_blocks trial_calls_concat_blocks gifs_concat_blocks upto_numerals)
  from scenario_resolve_cli obtain ns' where
    res': "resolve [(''trials'', ''1''), (''plotting'', ''true'')] None scenario_defaults = Inr (ns', None)"
    and attrs': "ns' ''simulations'' = Some (VInt 10)" "ns' ''depth'' = Some (VInt 5)"
      "ns' ''trials'' = Some (VInt (int 1))" "ns' ''iterations'' = Some (VInt 50)"
      "ns' ''plotting'' = Some (VBool True)"
    by (auto split: sum.splits)
  let ?targs' = "call_args ?env (VInt 10) (VInt 5) (VInt (int 1)) (VInt 50) (VBool True)
      None None (Some (clock 0))"
  from engine_completes [OF assms] obtain out' c' l' where
    ok': "trials_complete mcts_trial ?targs' 1 out' c' l'"
    by blast
  have second: "(let r = mcts mcts_trial clock [(''trials'', ''1''), (''plotting'', ''true'')] None env
              scenario_defaults
    in snd r = None \<and> length (trial_calls (trace (fst r))) = 1 \<and>
       map length (writes (trace (fst r))) = [1] \<and> gifs (trace (fst r)) = [1])"
    unfolding mcts_completes [where clock = clock and env = env, OF res' attrs' refl refl ok'] Let_def
    by (simp add: writes_concat_blocks trial_calls_concat_blocks gifs_concat_blocks upto_numerals)
  show ?thesis
    using first second scenario_resolve_defaults scenario_resolve_cli
    by (auto split: sum.splits)
qed

theorem scenario_runs_witness:
  "(let r = mcts steady_trial tick_clock [] None None scenario_defaults
    in snd r = None \<and> length (trial_calls (trace (fst r))) = 3 \<and>
       map length (writes (trace (fst r))) = [1, 2, 3] \<and> gifs (trace (fst r)) = []) \<and>
   (let r = mcts steady_trial tick_clock [(''trials'', ''1''), (''plotting'', ''true'')] None None
              scenario_defaults
    in snd r = None \<and> length (trial_calls (trace (fst r))) = 1 \<and>
       map length (writes (trace (fst r))) = [1] \<and> gifs (trace (fst r)) = [1])"
proof -
  have "\<forall>args i. \<exists>out c l. steady_trial args i = Inr out \<and> counts out = Some (c, l)"
    by (simp add: steady_trial_def counts_steady_outcome)
  from scenario_runs [OF this, of tick_clock None]
  show ?thesis
    by simp
qed

subsection \<open>Fields of the file configuration\<close>




subsection \<open>Errors of the resolution\<close>




subsection \<open>The log header\<close>




subsection \<open>Precedence of the layers\<close>

text \<open>
  Claim C1 says that a field resolves to the value of the highest-precedence source
  that specifies it. The order of the layers is as claimed (\<open>resolve_precedence\<close>), but
  the value is not: the flag \<^verbatim>\<open>--plotting\<close> is declared with \<^verbatim>\<open>type=bool\<close>, and \<^verbatim>\<open>bool\<close> of
  a non-empty string is \<^verbatim>\<open>True\<close>. With the defaults of the scenario (\<^verbatim>\<open>plotting\<close> false),
  the command line \<^verbatim>\<open>--plotting false\<close> resolves \<^verbatim>\<open>plotting\<close> to \<^verbatim>\<open>True\<close>, and \<^verbatim>\<open>save_gif\<close> is
  called after each of the three trials. The same word in the file configuration is
  read by \<^verbatim>\<open>getboolean\<close> and resolves to \<^verbatim>\<open>False\<close>.
\<close>

theorem cli_plotting_false:
  "(case resolve [(''plotting'', ''false'')] None scenario_defaults of
      Inl e \<Rightarrow> False
    | Inr (ns, config) \<Rightarrow> ns ''plotting'' = Some (VBool True)) \<and>
   gifs (trace (fst (mcts steady_trial tick_clock [(''plotting'', ''false'')] None None
                       scenario_defaults))) = [1, 2, 3] \<and>
   (case resolve [] (Some [(''Defaults'', [(''plotting'', ''false'')])]) scenario_defaults of
      Inl e \<Rightarrow> False
    | Inr (ns, config) \<Rightarrow> ns ''plotting'' = Some (VBool False)) \<and>
   gifs (trace (fst (mcts steady_trial tick_clock [] (Some [(''Defaults'', [(''plotting'', ''false'')])])
                       None scenario_defaults))) = []"
  by code_simp

end
